theory Spec2Isabelle
  imports Complex_Main "HOL-Library.Sublist"
begin

section \<open>JavaScript strings\<close>

text \<open>
  Strings are \<^typ>\<open>string\<close>: one \<^typ>\<open>char\<close> per code unit.  The source counts
  UTF-16 code units; for ASCII text the two agree.
\<close>

definition startsWith :: "string \<Rightarrow> string \<Rightarrow> bool" where
  "startsWith s p = (take (length p) s = p)"

definition endsWith :: "string \<Rightarrow> string \<Rightarrow> bool" where
  "endsWith s p = (length p \<le> length s \<and> drop (length s - length p) s = p)"

fun str_includes :: "string \<Rightarrow> string \<Rightarrow> bool" where
  "str_includes [] p = (p = [])"
| "str_includes (c # cs) p = (startsWith (c # cs) p \<or> str_includes cs p)"

text \<open>
  \<open>String.prototype.trim\<close> on ASCII text: the six ASCII white-space characters and line
  terminators are stripped.  The source also strips the white space outside ASCII
  (\<open>U+00A0\<close>, \<open>U+FEFF\<close>, the Unicode space separators); every statement below that
  depends on \<open>trim\<close> is about ASCII text.
\<close>

definition is_space :: "char \<Rightarrow> bool" where
  "is_space c = (c \<in> set [CHR '' '', CHR 0x09, CHR 0x0A, CHR 0x0B, CHR 0x0C, CHR 0x0D])"

definition trim :: "string \<Rightarrow> string" where
  "trim s = rev (dropWhile is_space (rev (dropWhile is_space s)))"

text \<open>\<open>s.split('\n')\<close>: the pieces between line feeds, the empty string giving one piece.\<close>

fun split_lines :: "string \<Rightarrow> string list" where
  "split_lines [] = [[]]"
| "split_lines (c # cs) =
     (if c = CHR 0x0A then [] # split_lines cs
      else (case split_lines cs of l # ls \<Rightarrow> (c # l) # ls | [] \<Rightarrow> [[c]]))"

text \<open>
  \<open>s.replace(/lit/g, rep)\<close> for a literal, non-empty \<open>lit\<close>: leftmost matches, not
  overlapping, each replaced by \<open>rep\<close>.
\<close>

function replaceAll :: "string \<Rightarrow> string \<Rightarrow> string \<Rightarrow> string" where
  "replaceAll lit rep [] = []"
| "replaceAll lit rep (c # cs) =
     (if lit \<noteq> [] \<and> startsWith (c # cs) lit
      then rep @ replaceAll lit rep (drop (length lit) (c # cs))
      else c # replaceAll lit rep cs)"
  by pat_completeness auto
termination
  by (relation "measure (\<lambda>(lit, rep, s). length s)") auto

text \<open>
  \<open>String.prototype.toLowerCase\<close> on ASCII text: the letters \<open>A\<close> to \<open>Z\<close> are
  folded.  The source also folds the letters outside ASCII; every statement below that
  depends on \<open>toLowerCase\<close> is about ASCII text.
\<close>

definition upper_chars :: string where
  "upper_chars = ''ABCDEFGHIJKLMNOPQRSTUVWXYZ''"

definition lower_chars :: string where
  "lower_chars = ''abcdefghijklmnopqrstuvwxyz''"

definition toLowerChar :: "char \<Rightarrow> char" where
  "toLowerChar c = (case map_of (zip upper_chars lower_chars) c of Some d \<Rightarrow> d | None \<Rightarrow> c)"

definition toLowerCase :: "string \<Rightarrow> string" where
  "toLowerCase s = map toLowerChar s"

text \<open>Decimal rendering of a number inside a template literal.\<close>

definition digit_char :: "nat \<Rightarrow> char" where
  "digit_char d = ''0123456789'' ! (d mod 10)"

fun show_nat :: "nat \<Rightarrow> string" where
  "show_nat n = (if n < 10 then [digit_char n] else show_nat (n div 10) @ [digit_char n])"

declare show_nat.simps [simp del]

section \<open>Regular expressions\<close>

text \<open>
  \<open>new RegExp(p)\<close> and \<open>regex.test(s)\<close> belong to the JavaScript engine.  The fragment
  of the pattern syntax that the program's own patterns are made of is modelled here:
  literal characters, \<open>.\<close>, \<open>^\<close>, \<open>$\<close>, groups, alternation, the quantifiers
  \<open>*\<close>, \<open>+\<close>, \<open>?\<close> (greedy or lazy), escaped syntax characters and character classes
  of plain or escaped members.  What the engine does with any other pattern is a parameter
  (\<open>regexp_engine\<close>).
\<close>

datatype regex =
    Eps
  | Chr char
  | Dot
  | Cls bool "char list"
  | Bol
  | Eol
  | Seq regex regex
  | Alt regex regex
  | Star regex
  | Plus regex
  | Opt regex

datatype rx_error =
    NothingToRepeat
  | UnmatchedParen
  | UnterminatedGroup
  | UnterminatedClass
  | EscapeAtEnd

datatype js_error = SyntaxError string | Error string

fun message :: "js_error \<Rightarrow> string" where
  "message (SyntaxError m) = m"
| "message (Error m) = m"

subsection \<open>Matching\<close>

text \<open>
  A matcher state is the rest of the input and whether the position is the start of the
  input.  \<open>rx_run r st\<close> lists the states reachable by matching \<open>r\<close> from \<open>st\<close>.
  Without flags \<open>.\<close> excludes the line terminators and \<open>^\<close>, \<open>$\<close> are the ends of
  the whole input.
\<close>

type_synonym rx_state = "bool \<times> string"

function star_run :: "(rx_state \<Rightarrow> rx_state list) \<Rightarrow> rx_state \<Rightarrow> rx_state list" where
  "star_run f st =
     st # concat (map (star_run f) (filter (\<lambda>st'. length (snd st') < length (snd st)) (f st)))"
  by pat_completeness auto
termination
  by (relation "measure (\<lambda>(f, st). length (snd st))") auto

declare star_run.simps [simp del]

fun rx_run :: "regex \<Rightarrow> rx_state \<Rightarrow> rx_state list" where
  "rx_run Eps st = [st]"
| "rx_run (Chr c) (b, s) = (case s of [] \<Rightarrow> [] | x # xs \<Rightarrow> if x = c then [(False, xs)] else [])"
| "rx_run Dot (b, s) =
     (case s of [] \<Rightarrow> []
      | x # xs \<Rightarrow> if x = CHR 0x0A \<or> x = CHR 0x0D then [] else [(False, xs)])"
| "rx_run (Cls neg ms) (b, s) =
     (case s of [] \<Rightarrow> []
      | x # xs \<Rightarrow> if (x \<in> set ms) \<noteq> neg then [(False, xs)] else [])"
| "rx_run Bol (b, s) = (if b then [(b, s)] else [])"
| "rx_run Eol (b, s) = (if s = [] then [(b, s)] else [])"
| "rx_run (Seq r1 r2) st = concat (map (rx_run r2) (rx_run r1 st))"
| "rx_run (Alt r1 r2) st = rx_run r1 st @ rx_run r2 st"
| "rx_run (Star r) st = star_run (rx_run r) st"
| "rx_run (Plus r) st = concat (map (star_run (rx_run r)) (rx_run r st))"
| "rx_run (Opt r) st = st # rx_run r st"

text \<open>\<open>regex.test(s)\<close>: a match may start at any position of \<open>s\<close>.\<close>

fun rx_search :: "regex \<Rightarrow> bool \<Rightarrow> string \<Rightarrow> bool" where
  "rx_search r b [] = (rx_run r (b, []) \<noteq> [])"
| "rx_search r b (c # cs) = (rx_run r (b, c # cs) \<noteq> [] \<or> rx_search r False cs)"

definition rx_test :: "regex \<Rightarrow> string \<Rightarrow> bool" where
  "rx_test r s = rx_search r True s"

subsection \<open>Parsing a pattern\<close>

text \<open>
  The pattern is read one character at a time, as the engine's single-pass parser does,
  and the first error met is the one reported.  A frame holds the finished alternatives
  and the atoms of the current alternative of one open group.
\<close>

type_synonym frame = "regex list \<times> regex list"

datatype qstat = QNone | QOpen | QAtom | QDone | QLazy

datatype pmode =
  Normal | Escape | ClassStart | ClassBody bool "char list" | ClassEscape bool "char list"

datatype pstate = PS pmode "frame list" qstat | PErr rx_error | POut

fun seq_list :: "regex list \<Rightarrow> regex" where
  "seq_list [] = Eps"
| "seq_list [r] = r"
| "seq_list (r # rs) = Seq r (seq_list rs)"

fun alt_list :: "regex list \<Rightarrow> regex" where
  "alt_list [] = Eps"
| "alt_list [r] = r"
| "alt_list (r # rs) = Alt r (alt_list rs)"

fun frame_regex :: "frame \<Rightarrow> regex" where
  "frame_regex (alts, cur) = alt_list (alts @ [seq_list cur])"

fun push_atom :: "regex \<Rightarrow> frame list \<Rightarrow> frame list" where
  "push_atom r [] = [([], [r])]"
| "push_atom r ((alts, cur) # fs) = (alts, cur @ [r]) # fs"

fun quantify :: "(regex \<Rightarrow> regex) \<Rightarrow> frame list \<Rightarrow> frame list" where
  "quantify q [] = []"
| "quantify q ((alts, cur) # fs) =
     (if cur = [] then (alts, cur) # fs else (alts, butlast cur @ [q (last cur)]) # fs)"

definition syntax_chars :: string where
  "syntax_chars = ''^$.*+?()[]{}|/'' @ [CHR 0x5C]"

fun class_step :: "bool \<Rightarrow> char list \<Rightarrow> frame list \<Rightarrow> qstat \<Rightarrow> char \<Rightarrow> pstate" where
  "class_step neg ms st q c =
     (if c = CHR '']'' then PS Normal (push_atom (Cls neg ms) st) QAtom
      else if c = CHR 0x5C then PS (ClassEscape neg ms) st q
      else if c = CHR ''-'' then POut
      else PS (ClassBody neg (ms @ [c])) st q)"

fun rx_step :: "pstate \<Rightarrow> char \<Rightarrow> pstate" where
  "rx_step (PErr e) c = PErr e"
| "rx_step POut c = POut"
| "rx_step (PS Escape st q) c =
     (if c \<in> set syntax_chars then PS Normal (push_atom (Chr c) st) QAtom else POut)"
| "rx_step (PS ClassStart st q) c =
     (if c = CHR ''^'' then PS (ClassBody True []) st q else class_step False [] st q c)"
| "rx_step (PS (ClassBody neg ms) st q) c = class_step neg ms st q c"
| "rx_step (PS (ClassEscape neg ms) st q) c =
     (if c \<in> set syntax_chars then PS (ClassBody neg (ms @ [c])) st q else POut)"
| "rx_step (PS Normal st q) c =
     (if c = CHR 0x5C then PS Escape st q
      else if c = CHR ''['' then PS ClassStart st q
      else if c = CHR ''('' then PS Normal (([], []) # st) QOpen
      else if c = CHR '')'' then
        (case st of
           f # g # fs \<Rightarrow> PS Normal (push_atom (frame_regex f) (g # fs)) QAtom
         | _ \<Rightarrow> PErr UnmatchedParen)
      else if c = CHR ''|'' then
        (case st of
           (alts, cur) # fs \<Rightarrow> PS Normal ((alts @ [seq_list cur], []) # fs) QNone
         | [] \<Rightarrow> PS Normal [] QNone)
      else if c = CHR ''^'' then PS Normal (push_atom Bol st) QNone
      else if c = CHR ''$'' then PS Normal (push_atom Eol st) QNone
      else if c = CHR ''.'' then PS Normal (push_atom Dot st) QAtom
      else if c = CHR ''*'' then
        (if q = QAtom then PS Normal (quantify Star st) QDone else PErr NothingToRepeat)
      else if c = CHR ''+'' then
        (if q = QAtom then PS Normal (quantify Plus st) QDone else PErr NothingToRepeat)
      else if c = CHR ''?'' then
        (if q = QAtom then PS Normal (quantify Opt st) QDone
         else if q = QDone then PS Normal st QLazy
         else if q = QOpen then POut
         else PErr NothingToRepeat)
      else if c = CHR ''{'' then POut
      else PS Normal (push_atom (Chr c) st) QAtom)"

datatype rx_parsed = Parsed regex | Rejected rx_error | Outside

fun rx_finish :: "pstate \<Rightarrow> rx_parsed" where
  "rx_finish (PErr e) = Rejected e"
| "rx_finish POut = Outside"
| "rx_finish (PS Escape st q) = Rejected EscapeAtEnd"
| "rx_finish (PS ClassStart st q) = Rejected UnterminatedClass"
| "rx_finish (PS (ClassBody neg ms) st q) = Rejected UnterminatedClass"
| "rx_finish (PS (ClassEscape neg ms) st q) = Rejected EscapeAtEnd"
| "rx_finish (PS Normal st q) =
     (case st of [f] \<Rightarrow> Parsed (frame_regex f) | _ \<Rightarrow> Rejected UnterminatedGroup)"

definition rx_parse :: "string \<Rightarrow> rx_parsed" where
  "rx_parse p = rx_finish (foldl rx_step (PS Normal [([], [])] QNone) p)"

text \<open>The engine's wording of a rejected pattern (V8).\<close>

fun rx_reason :: "rx_error \<Rightarrow> string" where
  "rx_reason NothingToRepeat = ''Nothing to repeat''"
| "rx_reason UnmatchedParen = ''Unmatched '' @ [CHR 0x27] @ '')'' @ [CHR 0x27]"
| "rx_reason UnterminatedGroup = ''Unterminated group''"
| "rx_reason UnterminatedClass = ''Unterminated character class''"
| "rx_reason EscapeAtEnd = [CHR 0x5C] @ '' at end of pattern''"

definition rx_syntax_error :: "string \<Rightarrow> rx_error \<Rightarrow> js_error" where
  "rx_syntax_error p e = SyntaxError (''Invalid regular expression: /'' @ p @ ''/: '' @ rx_reason e)"

type_synonym regexp_engine = "string \<Rightarrow> js_error + (string \<Rightarrow> bool)"

definition RegExp :: "regexp_engine \<Rightarrow> string \<Rightarrow> js_error + (string \<Rightarrow> bool)" where
  "RegExp eng p =
     (case rx_parse p of
        Parsed r \<Rightarrow> Inr (rx_test r)
      | Rejected e \<Rightarrow> Inl (rx_syntax_error p e)
      | Outside \<Rightarrow> eng p)"

text \<open>An engine that accepts nothing beyond the modelled fragment, for concrete runs.\<close>

definition fragment_only :: regexp_engine where
  "fragment_only p = Inl (SyntaxError (''Invalid regular expression: /'' @ p @ ''/''))"

section \<open>Paths\<close>

text \<open>
  Node's \<open>path\<close> module on a POSIX host.  \<open>basename\<close> drops trailing separators and
  returns what follows the last remaining one; \<open>extname\<close> returns the part of the
  basename from its last dot, and the empty string when there is no dot, when the only
  dot comes first, or when the basename is \<open>..\<close>.
\<close>

definition is_sep :: "char \<Rightarrow> bool" where
  "is_sep c = (c = CHR ''/'')"

definition basename :: "string \<Rightarrow> string" where
  "basename p = rev (takeWhile (\<lambda>c. \<not> is_sep c) (dropWhile is_sep (rev p)))"

definition extname :: "string \<Rightarrow> string" where
  "extname p =
     (let b = basename p;
          ext = rev (takeWhile (\<lambda>c. c \<noteq> CHR ''.'') (rev b));
          pre = rev (drop 1 (dropWhile (\<lambda>c. c \<noteq> CHR ''.'') (rev b)))
      in if CHR ''.'' \<notin> set b \<or> pre = [] \<or> b = ''..'' then [] else CHR ''.'' # ext)"

text \<open>
  \<open>path.join(dir, name)\<close> for a normalized directory path and a directory entry's name,
  and \<open>path.relative(from, to)\<close> for a \<open>to\<close> that was joined below \<open>from\<close>: the two uses
  the walker makes of them.
\<close>

definition path_join :: "string \<Rightarrow> string \<Rightarrow> string" where
  "path_join dir name =
     (if dir = [] \<or> dir = ''.'' then name
      else if is_sep (last dir) then dir @ name
      else dir @ ''/'' @ name)"

definition path_relative :: "string \<Rightarrow> string \<Rightarrow> string" where
  "path_relative from to =
     (let f = rev (dropWhile is_sep (rev from))
      in if from = [] \<or> from = ''.'' then to
         else if startsWith to (f @ ''/'') then drop (length f + 1) to
         else [])"

section \<open>Supported languages\<close>

definition SUPPORTED_LANGUAGES :: "(string \<times> string) list" where
  "SUPPORTED_LANGUAGES =
     [(''js'', ''tree-sitter-javascript.wasm''),
      (''jsx'', ''tree-sitter-javascript.wasm''),
      (''ts'', ''tree-sitter-javascript.wasm''),
      (''tsx'', ''tree-sitter-javascript.wasm''),
      (''py'', ''tree-sitter-python.wasm'')]"

text \<open>
  \<open>SUPPORTED_LANGUAGES[ext] || null\<close>.  The table is a plain object, so the two
  lower-case names it inherits (\<open>constructor\<close>, \<open>__proto__\<close>) answer with an
  object that is no grammar file name; no grammar is ever loaded under such a key, and the
  lookup that follows in \<open>extractCodeSymbols\<close> fails as it does for \<open>null\<close>.
\<close>

definition getLanguageFromExtension :: "string \<Rightarrow> string option" where
  "getLanguageFromExtension filePath =
     map_of SUPPORTED_LANGUAGES (toLowerCase (drop 1 (extname filePath)))"

definition inherited_keys :: "string list" where
  "inherited_keys = [''constructor'', ''__proto__'']"

section \<open>The ignore-pattern compiler\<close>

definition gitignore_pattern :: "string \<Rightarrow> string" where
  "gitignore_pattern pattern =
     (if pattern = ''node_modules'' \<or> pattern = ''node_modules/'' then ''^node_modules($|/)''
      else
        let processedPattern = rev (dropWhile is_sep (rev pattern));
            hasLeadingSlash = startsWith processedPattern ''/'';
            processedPattern = (if hasLeadingSlash then drop 1 processedPattern else processedPattern);
            processedPattern = replaceAll ''.'' [CHR 0x5C, CHR ''.''] processedPattern;
            processedPattern = replaceAll ''**'' ''__DOUBLE_STAR__'' processedPattern;
            processedPattern = replaceAll ''*'' ''[^/]*'' processedPattern;
            processedPattern = replaceAll ''__DOUBLE_STAR__'' ''.*'' processedPattern;
            processedPattern = replaceAll ''?'' ''[^/]'' processedPattern;
            processedPattern = replaceAll ''/'' [CHR 0x5C, CHR ''/''] processedPattern
        in if hasLeadingSlash then ''^'' @ processedPattern @ ''($|/.*)''
           else ''(^|.*/|^/)'' @ processedPattern @ ''($|/.*)'')"

text \<open>
  \<open>parseGitignore\<close>, given what reading the file gives: \<open>None\<close> when the file does
  not exist or cannot be read (both end in the empty list).
\<close>

definition parseGitignore :: "string option \<Rightarrow> string list" where
  "parseGitignore content =
     (case content of
        None \<Rightarrow> []
      | Some text \<Rightarrow>
          map gitignore_pattern
            (filter (\<lambda>line. line \<noteq> [] \<and> \<not> startsWith line ''#'')
               (map trim (split_lines text))))"

text \<open>
  \<open>patterns.some(pattern => new RegExp(pattern).test(a) || ...)\<close>: patterns are tried
  in order, the first match ends the search, and a pattern the engine rejects throws when
  it is reached.
\<close>

fun some_regex :: "regexp_engine \<Rightarrow> string list \<Rightarrow> string list \<Rightarrow> js_error + bool" where
  "some_regex eng [] subjects = Inr False"
| "some_regex eng (pattern # patterns) subjects =
     (case RegExp eng pattern of
        Inl e \<Rightarrow> Inl e
      | Inr test \<Rightarrow>
          if list_ex test subjects then Inr True else some_regex eng patterns subjects)"

definition shouldIgnore ::
  "regexp_engine \<Rightarrow> string \<Rightarrow> bool \<Rightarrow> string list \<Rightarrow> string \<Rightarrow> js_error + bool" where
  "shouldIgnore eng itemPath isDirectory ignorePatterns rootPath =
     (if ignorePatterns = [] then Inr False
      else
        let relativePath = map (\<lambda>c. if c = CHR 0x5C then CHR ''/'' else c)
                             (path_relative rootPath itemPath);
            pathToCheck = (if isDirectory then relativePath @ ''/'' else relativePath);
            itemName = basename itemPath
        in some_regex eng ignorePatterns [pathToCheck, itemName])"

section \<open>The file classifier\<close>

definition matches_pattern :: "regexp_engine \<Rightarrow> string \<Rightarrow> string \<Rightarrow> js_error + bool" where
  "matches_pattern eng filePath pattern =
     (let fileName = basename filePath
      in if str_includes pattern ''*'' then
           (let regexPattern = replaceAll ''*'' ''.*'' (replaceAll ''.'' [CHR 0x5C, CHR ''.''] pattern)
            in case RegExp eng (''^'' @ regexPattern @ ''$'') of
                 Inl e \<Rightarrow> Inl e
               | Inr test \<Rightarrow> Inr (test fileName))
         else if startsWith pattern ''.'' then Inr (endsWith filePath pattern)
         else Inr (toLowerCase (drop 1 (extname filePath)) = toLowerCase pattern))"

fun some_pattern :: "regexp_engine \<Rightarrow> string \<Rightarrow> string list \<Rightarrow> js_error + bool" where
  "some_pattern eng filePath [] = Inr False"
| "some_pattern eng filePath (pattern # patterns) =
     (case matches_pattern eng filePath pattern of
        Inl e \<Rightarrow> Inl e
      | Inr True \<Rightarrow> Inr True
      | Inr False \<Rightarrow> some_pattern eng filePath patterns)"

definition isSupportedFile ::
  "regexp_engine \<Rightarrow> string \<Rightarrow> string list option \<Rightarrow> js_error + bool" where
  "isSupportedFile eng filePath customPatterns =
     (case customPatterns of
        Some (p # ps) \<Rightarrow> some_pattern eng filePath (p # ps)
      | _ \<Rightarrow>
          (let ext = toLowerCase (drop 1 (extname filePath))
           in Inr (ext \<in> set (map fst SUPPORTED_LANGUAGES) \<or> ext \<in> set inherited_keys)))"

section \<open>Syntax trees\<close>

text \<open>
  The parser is external; what the program reads of a tree node is its type tag, its
  source text, its start and end (row, column), whether it is a named node, the field
  name under which it hangs in its parent, and its children.
\<close>

datatype node =
  Node (nfield: "string option") (ntype: string) (ntext: string)
       (nstart: "nat \<times> nat") (nend: "nat \<times> nat") (nnamed: bool) (nkids: "node list")

text \<open>
  A node of a tree is handled together with its ancestors, nearest first: this is what
  \<open>node.parent\<close> walks.
\<close>

type_synonym lnode = "node list \<times> node"

definition parent :: "lnode \<Rightarrow> lnode option" where
  "parent loc = (case fst loc of [] \<Rightarrow> None | p # anc \<Rightarrow> Some (anc, p))"

definition childForFieldName :: "node \<Rightarrow> string \<Rightarrow> node option" where
  "childForFieldName n f = find (\<lambda>c. nfield c = Some f) (nkids n)"

definition firstNamedChild :: "node \<Rightarrow> node option" where
  "firstNamedChild n = find nnamed (nkids n)"

definition namedChildren :: "node \<Rightarrow> node list" where
  "namedChildren n = filter nnamed (nkids n)"

text \<open>Siblings are told apart by their spans, so a node is found among them by equality.\<close>

definition nextNamedSibling :: "lnode \<Rightarrow> node option" where
  "nextNamedSibling loc =
     (case fst loc of
        [] \<Rightarrow> None
      | p # anc \<Rightarrow> find nnamed (drop 1 (dropWhile (\<lambda>c. c \<noteq> snd loc) (nkids p))))"

text \<open>
  \<open>descendantsOfType\<close> walks the subtree in document order, the start node included,
  and keeps the nodes whose type is one of those asked for.
\<close>

fun descendants :: "node list \<Rightarrow> node \<Rightarrow> lnode list" where
  "descendants anc (Node f t x s e nm ks) =
     (anc, Node f t x s e nm ks) #
       concat (map (descendants (Node f t x s e nm ks # anc)) ks)"

definition descendantsOfType :: "lnode \<Rightarrow> string list \<Rightarrow> lnode list" where
  "descendantsOfType loc types =
     filter (\<lambda>d. ntype (snd d) \<in> set types) (descendants (fst loc) (snd loc))"

section \<open>Symbol records\<close>

record position =
  startLine :: nat
  startCol :: nat
  endLine :: nat
  endCol :: nat

record function_rec =
  fn_name :: string
  fn_parent :: "string option"
  fn_position :: position
  fn_code :: string

record variable_rec =
  var_name :: string
  var_kind :: string
  var_position :: position
  var_code :: string

record method_rec =
  m_name :: string
  m_position :: position
  m_isStatic :: bool
  m_code :: string

record class_rec =
  cls_name :: string
  cls_position :: position
  cls_methods :: "method_rec list"
  cls_code :: string

record item_rec =
  item_name :: string
  item_alias :: "string option"

record import_rec =
  imp_source :: string
  imp_items :: "item_rec list"
  imp_position :: position
  imp_code :: string

record export_rec =
  exp_source :: "string option"
  exp_items :: "item_rec list"
  exp_isDefault :: bool
  exp_position :: position
  exp_code :: string

record file_symbols =
  sym_functions :: "function_rec list"
  sym_variables :: "variable_rec list"
  sym_classes :: "class_rec list"
  sym_imports :: "import_rec list"
  sym_exports :: "export_rec list"

section \<open>The symbol extractor\<close>

definition getPosition :: "node \<Rightarrow> position" where
  "getPosition n =
     \<lparr>startLine = fst (nstart n) + 1, startCol = snd (nstart n),
      endLine = fst (nend n) + 1, endCol = snd (nend n)\<rparr>"

definition text_of :: "node option \<Rightarrow> string option" where
  "text_of n = map_option ntext n"

definition strip_quotes :: "string \<Rightarrow> string" where
  "strip_quotes s = filter (\<lambda>c. c \<noteq> CHR 0x27 \<and> c \<noteq> CHR 0x22) s"

definition array_methods :: "string list" where
  "array_methods = [''.map('', ''.filter('', ''.forEach('', ''.find('', ''.reduce('']"

definition isSignificantFunction :: "lnode \<Rightarrow> string \<Rightarrow> bool" where
  "isSignificantFunction loc name =
     (let n = snd loc in
      if ntype n = ''arrow_function'' \<and> length (ntext n) < 15 then False
      else if (case parent loc of
                 None \<Rightarrow> False
               | Some p \<Rightarrow>
                   (ntype (snd p) = ''call_expression'' \<or> ntype (snd p) = ''member_expression'')
                   \<and> length (ntext n) < 50
                   \<and> (let callText = toLowerCase (take 30 (ntext (snd p)))
                      in list_ex (str_includes callText) array_methods))
      then False
      else name \<noteq> ''anonymous'' \<or> length (ntext n) > 100)"

definition inferFunctionName :: "lnode \<Rightarrow> string" where
  "inferFunctionName loc =
     (case parent loc of
        None \<Rightarrow> ''anonymous''
      | Some p \<Rightarrow>
          if ntype (snd p) = ''variable_declarator'' then
            (case childForFieldName (snd p) ''name'' of
               Some nameNode \<Rightarrow> ntext nameNode
             | None \<Rightarrow> ''anonymous'')
          else if ntype (snd p) = ''pair''
                  \<and> (case parent p of Some g \<Rightarrow> ntype (snd g) = ''object'' | None \<Rightarrow> False) then
            (case childForFieldName (snd p) ''key'' of
               Some keyNode \<Rightarrow> strip_quotes (ntext keyNode)
             | None \<Rightarrow> ''anonymous'')
          else if ntype (snd p) = ''assignment_expression'' then
            (case childForFieldName (snd p) ''left'' of
               Some leftNode \<Rightarrow>
                 if ntype leftNode = ''member_expression'' then
                   (case childForFieldName leftNode ''property'' of
                      Some propertyNode \<Rightarrow> ntext propertyNode
                    | None \<Rightarrow> ''anonymous'')
                 else ntext leftNode
             | None \<Rightarrow> ''anonymous'')
          else if ntype (snd p) = ''property_identifier''
                  \<and> (case parent p of Some g \<Rightarrow> ntype (snd g) = ''member_expression''
                      | None \<Rightarrow> False) then
            ntext (snd p)
          else ''anonymous'')"

text \<open>\<open>node.parent?.parent\<close> when it is a node of the given type, then its \<open>name\<close> field.\<close>

definition enclosing_name :: "lnode \<Rightarrow> string \<Rightarrow> string option" where
  "enclosing_name loc ty =
     (case fst loc of
        p # g # anc \<Rightarrow>
          if ntype g = ty then text_of (childForFieldName g ''name'') else None
      | _ \<Rightarrow> None)"

definition or_anonymous :: "node option \<Rightarrow> string" where
  "or_anonymous n = (case n of Some nameNode \<Rightarrow> ntext nameNode | None \<Rightarrow> ''anonymous'')"

subsection \<open>JavaScript and TypeScript\<close>

definition js_function_name :: "lnode \<Rightarrow> string" where
  "js_function_name loc =
     (let n = snd loc in
      if ntype n = ''function_declaration'' then or_anonymous (firstNamedChild n)
      else if ntype n = ''method_definition'' then or_anonymous (childForFieldName n ''name'')
      else if ntype n = ''function'' \<or> ntype n = ''arrow_function'' then inferFunctionName loc
      else ''anonymous'')"

definition js_function_parent :: "lnode \<Rightarrow> string option" where
  "js_function_parent loc =
     (if ntype (snd loc) = ''function_declaration'' then None
      else if ntype (snd loc) = ''method_definition'' then enclosing_name loc ''class_declaration''
      else None)"

definition js_function :: "lnode \<Rightarrow> function_rec" where
  "js_function loc =
     \<lparr>fn_name = js_function_name loc, fn_parent = js_function_parent loc,
      fn_position = getPosition (snd loc), fn_code = ntext (snd loc)\<rparr>"

definition js_functions :: "lnode \<Rightarrow> function_rec list" where
  "js_functions rootLoc =
     map js_function
       (filter (\<lambda>loc. isSignificantFunction loc (js_function_name loc))
          (descendantsOfType rootLoc
             [''function_declaration'', ''method_definition'', ''arrow_function'', ''function'']))"

definition js_kind :: "node \<Rightarrow> string" where
  "js_kind n =
     (case childForFieldName n ''kind'' of
        Some k \<Rightarrow> if ntext k = [] then ''var'' else ntext k
      | None \<Rightarrow> ''var'')"

definition js_declarators :: "lnode \<Rightarrow> variable_rec list" where
  "js_declarators loc =
     concat (map (\<lambda>declarator.
         case childForFieldName (snd declarator) ''name'' of
           Some nameNode \<Rightarrow>
             [\<lparr>var_name = ntext nameNode, var_kind = js_kind (snd loc),
               var_position = getPosition (snd declarator), var_code = ntext (snd declarator)\<rparr>]
         | None \<Rightarrow> [])
       (descendantsOfType loc [''variable_declarator'']))"

definition js_variables :: "lnode \<Rightarrow> variable_rec list" where
  "js_variables rootLoc =
     concat (map js_declarators
       (descendantsOfType rootLoc [''variable_declaration'', ''lexical_declaration'']))"

definition js_method :: "lnode \<Rightarrow> method_rec list" where
  "js_method methodNode =
     (case childForFieldName (snd methodNode) ''name'' of
        Some methodNameNode \<Rightarrow>
          [\<lparr>m_name = ntext methodNameNode, m_position = getPosition (snd methodNode),
            m_isStatic = (text_of (childForFieldName (snd methodNode) ''static'') = Some ''static''),
            m_code = ntext (snd methodNode)\<rparr>]
      | None \<Rightarrow> [])"

definition js_class :: "lnode \<Rightarrow> class_rec list" where
  "js_class loc =
     (case childForFieldName (snd loc) ''name'' of
        Some nameNode \<Rightarrow>
          [\<lparr>cls_name = ntext nameNode, cls_position = getPosition (snd loc),
            cls_methods = concat (map js_method (descendantsOfType loc [''method_definition''])),
            cls_code = ntext (snd loc)\<rparr>]
      | None \<Rightarrow> [])"

definition js_classes :: "lnode \<Rightarrow> class_rec list" where
  "js_classes rootLoc = concat (map js_class (descendantsOfType rootLoc [''class_declaration'']))"

definition js_specifier :: "lnode \<Rightarrow> item_rec list" where
  "js_specifier specNode =
     (if ntype (snd specNode) = ''import_specifier'' then
        (case childForFieldName (snd specNode) ''name'' of
           Some nameNode \<Rightarrow>
             [\<lparr>item_name = ntext nameNode,
               item_alias = text_of (childForFieldName (snd specNode) ''alias'')\<rparr>]
         | None \<Rightarrow> [])
      else if ntype (snd specNode) = ''namespace_import'' then
        (case childForFieldName (snd specNode) ''name'' of
           Some nameNode \<Rightarrow> [\<lparr>item_name = ''*'', item_alias = Some (ntext nameNode)\<rparr>]
         | None \<Rightarrow> [])
      else [])"

definition js_import :: "lnode \<Rightarrow> import_rec list" where
  "js_import loc =
     (case childForFieldName (snd loc) ''source'' of
        Some sourceNode \<Rightarrow>
          (let specifiers = descendantsOfType loc [''import_specifier'', ''namespace_import''];
               importedItems = concat (map js_specifier specifiers);
               defaultItems =
                 (case descendantsOfType loc [''identifier''] of
                    defaultImportNode # _ \<Rightarrow>
                      if specifiers = []
                      then [\<lparr>item_name = ''default'', item_alias = Some (ntext (snd defaultImportNode))\<rparr>]
                      else []
                  | [] \<Rightarrow> [])
           in [\<lparr>imp_source = strip_quotes (ntext sourceNode),
                 imp_items = importedItems @ defaultItems,
                 imp_position = getPosition (snd loc), imp_code = ntext (snd loc)\<rparr>])
      | None \<Rightarrow> [])"

definition js_imports :: "lnode \<Rightarrow> import_rec list" where
  "js_imports rootLoc = concat (map js_import (descendantsOfType rootLoc [''import_statement'']))"

definition js_export_specifier :: "lnode \<Rightarrow> item_rec list" where
  "js_export_specifier specNode =
     (case childForFieldName (snd specNode) ''name'' of
        Some nameNode \<Rightarrow>
          [\<lparr>item_name = ntext nameNode,
            item_alias = text_of (childForFieldName (snd specNode) ''alias'')\<rparr>]
      | None \<Rightarrow> [])"

definition is_default :: "node \<Rightarrow> bool" where
  "is_default n = (text_of (childForFieldName n ''default'') = Some ''default'')"

definition js_declared_name :: "lnode \<Rightarrow> string" where
  "js_declared_name loc =
     (if ntype (snd loc) = ''function_declaration'' then
        (case childForFieldName (snd loc) ''name'' of Some nameNode \<Rightarrow> ntext nameNode | None \<Rightarrow> [])
      else if ntype (snd loc) = ''lexical_declaration'' then
        (case descendantsOfType loc [''variable_declarator''] of
           declarator # _ \<Rightarrow>
             (case childForFieldName (snd declarator) ''name'' of
                Some nameNode \<Rightarrow> ntext nameNode
              | None \<Rightarrow> [])
         | [] \<Rightarrow> [])
      else [])"

definition js_export :: "lnode \<Rightarrow> export_rec list" where
  "js_export loc =
     (if ntype (snd loc) = ''export_statement'' then
        [\<lparr>exp_source = map_option strip_quotes (text_of (childForFieldName (snd loc) ''source'')),
          exp_items = concat (map js_export_specifier (descendantsOfType loc [''export_specifier''])),
          exp_isDefault = is_default (snd loc),
          exp_position = getPosition (snd loc), exp_code = ntext (snd loc)\<rparr>]
      else
        (case parent loc of
           Some p \<Rightarrow>
             if ntype (snd p) = ''export_statement'' \<and> js_declared_name loc \<noteq> [] then
               [\<lparr>exp_source = None,
                 exp_items = [\<lparr>item_name = js_declared_name loc, item_alias = None\<rparr>],
                 exp_isDefault = is_default (snd p),
                 exp_position = getPosition (snd p), exp_code = ntext (snd p)\<rparr>]
             else []
         | None \<Rightarrow> []))"

definition js_exports :: "lnode \<Rightarrow> export_rec list" where
  "js_exports rootLoc =
     concat (map js_export
       (descendantsOfType rootLoc [''export_statement'', ''lexical_declaration'', ''function_declaration'']))"

definition extract_javascript :: "node \<Rightarrow> file_symbols" where
  "extract_javascript rootNode =
     \<lparr>sym_functions = js_functions ([], rootNode),
      sym_variables = js_variables ([], rootNode),
      sym_classes = js_classes ([], rootNode),
      sym_imports = js_imports ([], rootNode),
      sym_exports = js_exports ([], rootNode)\<rparr>"

subsection \<open>Python\<close>

definition py_function :: "lnode \<Rightarrow> function_rec" where
  "py_function loc =
     \<lparr>fn_name = or_anonymous (childForFieldName (snd loc) ''name''),
      fn_parent = enclosing_name loc ''class_definition'',
      fn_position = getPosition (snd loc), fn_code = ntext (snd loc)\<rparr>"

definition py_functions :: "lnode \<Rightarrow> function_rec list" where
  "py_functions rootLoc = map py_function (descendantsOfType rootLoc [''function_definition''])"

definition py_assignment :: "lnode \<Rightarrow> variable_rec list" where
  "py_assignment loc =
     (if (case parent loc of
            None \<Rightarrow> False
          | Some p \<Rightarrow>
              ntype (snd p) = ''module''
              \<or> (ntype (snd p) = ''block''
                  \<and> (case parent p of Some g \<Rightarrow> ntype (snd g) = ''class_definition''
                      | None \<Rightarrow> False)))
      then
        (case childForFieldName (snd loc) ''left'' of
           Some left \<Rightarrow>
             if ntype left = ''identifier'' then
               [\<lparr>var_name = ntext left, var_kind = ''var'',
                 var_position = getPosition (snd loc), var_code = ntext (snd loc)\<rparr>]
             else []
         | None \<Rightarrow> [])
      else [])"

definition py_variables :: "lnode \<Rightarrow> variable_rec list" where
  "py_variables rootLoc = concat (map py_assignment (descendantsOfType rootLoc [''assignment'']))"

definition py_isStatic :: "node \<Rightarrow> bool" where
  "py_isStatic methodNode =
     (case childForFieldName methodNode ''decorator_list'' of
        Some decorators \<Rightarrow> list_ex (\<lambda>decorator. ntext decorator = ''@staticmethod'') (nkids decorators)
      | None \<Rightarrow> False)"

definition py_method :: "lnode \<Rightarrow> method_rec list" where
  "py_method methodNode =
     (case childForFieldName (snd methodNode) ''name'' of
        Some methodNameNode \<Rightarrow>
          [\<lparr>m_name = ntext methodNameNode, m_position = getPosition (snd methodNode),
            m_isStatic = py_isStatic (snd methodNode), m_code = ntext (snd methodNode)\<rparr>]
      | None \<Rightarrow> [])"

definition py_class :: "lnode \<Rightarrow> class_rec list" where
  "py_class loc =
     (case childForFieldName (snd loc) ''name'' of
        Some nameNode \<Rightarrow>
          [\<lparr>cls_name = ntext nameNode, cls_position = getPosition (snd loc),
            cls_methods = concat (map py_method (descendantsOfType loc [''function_definition''])),
            cls_code = ntext (snd loc)\<rparr>]
      | None \<Rightarrow> [])"

definition py_classes :: "lnode \<Rightarrow> class_rec list" where
  "py_classes rootLoc = concat (map py_class (descendantsOfType rootLoc [''class_definition'']))"

definition py_imported_name :: "node \<Rightarrow> item_rec list" where
  "py_imported_name nameNode =
     (if ntype nameNode = ''aliased_import'' then
        (case text_of (childForFieldName nameNode ''name'') of
           Some name \<Rightarrow>
             if name \<noteq> [] then
               [\<lparr>item_name = name, item_alias = text_of (childForFieldName nameNode ''alias'')\<rparr>]
             else []
         | None \<Rightarrow> [])
      else if ntype nameNode = ''identifier'' then
        [\<lparr>item_name = ntext nameNode, item_alias = None\<rparr>]
      else [])"

definition py_import :: "lnode \<Rightarrow> import_rec list" where
  "py_import loc =
     (if ntype (snd loc) = ''import_statement'' then
        (case childForFieldName (snd loc) ''names'' of
           Some namesNode \<Rightarrow>
             map (\<lambda>moduleNode.
                 \<lparr>imp_source = ntext (snd moduleNode),
                  imp_items = [\<lparr>item_name = ''module'',
                                item_alias = text_of (nextNamedSibling moduleNode)\<rparr>],
                  imp_position = getPosition (snd loc), imp_code = ntext (snd loc)\<rparr>)
               (descendantsOfType (snd loc # fst loc, namesNode) [''dotted_name''])
         | None \<Rightarrow> [])
      else if ntype (snd loc) = ''import_from_statement'' then
        (case (childForFieldName (snd loc) ''module'', childForFieldName (snd loc) ''names'') of
           (Some moduleNode, Some namesNode) \<Rightarrow>
             [\<lparr>imp_source = ntext moduleNode,
               imp_items = concat (map py_imported_name (namedChildren namesNode)),
               imp_position = getPosition (snd loc), imp_code = ntext (snd loc)\<rparr>]
         | _ \<Rightarrow> [])
      else [])"

definition py_imports :: "lnode \<Rightarrow> import_rec list" where
  "py_imports rootLoc =
     concat (map py_import (descendantsOfType rootLoc [''import_statement'', ''import_from_statement'']))"

definition extract_python :: "node \<Rightarrow> file_symbols" where
  "extract_python rootNode =
     \<lparr>sym_functions = py_functions ([], rootNode),
      sym_variables = py_variables ([], rootNode),
      sym_classes = py_classes ([], rootNode),
      sym_imports = py_imports ([], rootNode),
      sym_exports = []\<rparr>"

subsection \<open>The program's state and \<open>extractCodeSymbols\<close>\<close>

text \<open>
  The module-level variables, and the operator channel (\<open>console.error\<close>) as the list
  of lines written.  The five stores of \<open>codeSymbols\<close> are objects keyed by file path:
  association lists, a key keeping its place when it is assigned again.
\<close>

type_synonym 'a store = "(string \<times> 'a) list"

fun store_set :: "string \<Rightarrow> 'a \<Rightarrow> 'a store \<Rightarrow> 'a store" where
  "store_set k v [] = [(k, v)]"
| "store_set k v ((k', v') # kvs) =
     (if k = k' then (k, v) # kvs else (k', v') # store_set k v kvs)"

definition set_add :: "string \<Rightarrow> string list \<Rightarrow> string list" where
  "set_add x xs = (if x \<in> set xs then xs else xs @ [x])"

record code_symbols =
  cs_functions :: "function_rec list store"
  cs_variables :: "variable_rec list store"
  cs_classes :: "class_rec list store"
  cs_imports :: "import_rec list store"
  cs_exports :: "export_rec list store"
  cs_files :: "string list"

record js_state =
  initialized :: bool
  languageInstances :: "string list"
  codeSymbols :: code_symbols
  console :: "string list"

text \<open>
  The collaborators outside the repository: \<open>initializeTreeSitter\<close> (it loads the
  grammars from disk or the network; it leaves a state and may throw)
  and the parser (\<open>new Parser()\<close>, \<open>setLanguage\<close>, \<open>parse\<close>), which either throws or
  returns the root node.
\<close>

record ts_env =
  initializeTreeSitter :: "js_state \<Rightarrow> js_error option \<times> js_state"
  parse :: "string \<Rightarrow> string \<Rightarrow> js_error + node"

definition log_error :: "string \<Rightarrow> js_state \<Rightarrow> js_state" where
  "log_error line st = st\<lparr>console := console st @ [line]\<rparr>"

definition empty_symbols :: file_symbols where
  "empty_symbols =
     \<lparr>sym_functions = [], sym_variables = [], sym_classes = [], sym_imports = [], sym_exports = []\<rparr>"

text \<open>The body of the \<open>try\<close> block: \<open>Inl\<close> is what the \<open>catch\<close> receives.\<close>

definition extract_body :: "ts_env \<Rightarrow> js_state \<Rightarrow> string \<Rightarrow> string \<Rightarrow> js_error + file_symbols option" where
  "extract_body env st filePath fileContent =
     (case getLanguageFromExtension filePath of
        None \<Rightarrow> Inr None
      | Some wasmFile \<Rightarrow>
          if wasmFile \<notin> set (languageInstances st) then Inr None
          else
            (case parse env wasmFile fileContent of
               Inl error \<Rightarrow> Inl error
             | Inr rootNode \<Rightarrow>
                 if wasmFile = ''tree-sitter-javascript.wasm'' then Inr (Some (extract_javascript rootNode))
                 else if wasmFile = ''tree-sitter-python.wasm'' then Inr (Some (extract_python rootNode))
                 else Inr (Some empty_symbols)))"

text \<open>
  \<open>extractCodeSymbols\<close>: \<open>Inl\<close> is a rejection of the returned promise, \<open>Inr None\<close> is
  \<open>null\<close>.  The initialization sits before the \<open>try\<close>.
\<close>

definition extract_tried :: "ts_env \<Rightarrow> js_state \<Rightarrow> string \<Rightarrow> string \<Rightarrow> (js_error + file_symbols option) \<times> js_state" where
  "extract_tried env st filePath fileContent =
     (case extract_body env st filePath fileContent of
        Inl error \<Rightarrow>
          (Inr None, log_error (''Error parsing '' @ filePath @ '': '' @ message error) st)
      | Inr result \<Rightarrow> (Inr result, st))"

definition extractCodeSymbols :: "ts_env \<Rightarrow> js_state \<Rightarrow> string \<Rightarrow> string \<Rightarrow> (js_error + file_symbols option) \<times> js_state" where
  "extractCodeSymbols env st filePath fileContent =
     (if \<not> initialized st then
        (case initializeTreeSitter env st of
           (Some error, st') \<Rightarrow> (Inl error, st')
         | (None, st') \<Rightarrow> extract_tried env st' filePath fileContent)
      else extract_tried env st filePath fileContent)"

section \<open>Rendering the symbols of one file\<close>

text \<open>
  The rendered text is kept as the list of the pieces appended to \<open>output\<close>, in order;
  the string returned is their concatenation.  The box-drawing characters are written as
  their UTF-8 bytes.
\<close>

definition box_last :: string where
  "box_last = [CHR 0xE2, CHR 0x94, CHR 0x94, CHR 0xE2, CHR 0x94, CHR 0x80, CHR 0xE2, CHR 0x94, CHR 0x80] @ '' ''"

definition box_item :: string where
  "box_item = [CHR 0xE2, CHR 0x94, CHR 0x9C, CHR 0xE2, CHR 0x94, CHR 0x80, CHR 0xE2, CHR 0x94, CHR 0x80] @ '' ''"

definition box_bar :: string where
  "box_bar = [CHR 0xE2, CHR 0x94, CHR 0x82] @ ''   ''"

fun join :: "string \<Rightarrow> string list \<Rightarrow> string" where
  "join sep [] = []"
| "join sep [x] = x"
| "join sep (x # y # ys) = x @ sep @ join sep (y # ys)"

definition truthy :: "string option \<Rightarrow> bool" where
  "truthy v = (case v of Some s \<Rightarrow> s \<noteq> [] | None \<Rightarrow> False)"

definition at_position :: "position \<Rightarrow> string" where
  "at_position p = ''['' @ show_nat (startLine p) @ '':'' @ show_nat (startCol p) @ '']''"

definition summary_line :: "string \<Rightarrow> file_symbols \<Rightarrow> string" where
  "summary_line childIndent symbols =
     childIndent @ box_last @ ''[Analyzed: '' @ show_nat (length (sym_functions symbols))
       @ '' functions, '' @ show_nat (length (sym_variables symbols))
       @ '' variables, '' @ show_nat (length (sym_classes symbols)) @ '' classes]'' @ [CHR 0x0A]"

definition wanted :: "string \<Rightarrow> string \<Rightarrow> bool" where
  "wanted symbolType kind = (symbolType = kind \<or> symbolType = ''all'')"

definition function_line :: "string \<Rightarrow> function_rec \<Rightarrow> string" where
  "function_line childIndent fn =
     childIndent @ ''    - '' @ fn_name fn
       @ (if truthy (fn_parent fn) then '' (in '' @ the (fn_parent fn) @ '')'' else [])
       @ '' '' @ at_position (fn_position fn)"

definition functions_listing :: "string \<Rightarrow> string \<Rightarrow> file_symbols \<Rightarrow> string list" where
  "functions_listing childIndent symbolType symbols =
     (if wanted symbolType ''functions'' \<and> length (sym_functions symbols) > 0 then
        (let fileFunctions = filter (\<lambda>fn. fn_name fn \<noteq> ''anonymous'') (sym_functions symbols)
         in if length fileFunctions > 0 then
              [childIndent @ ''    Functions:'' @ [CHR 0x0A],
               join [CHR 0x0A] (map (function_line childIndent) fileFunctions) @ [CHR 0x0A]]
            else [])
      else [])"

definition variable_line :: "string \<Rightarrow> variable_rec \<Rightarrow> string" where
  "variable_line childIndent v =
     childIndent @ ''    - '' @ var_kind v @ '' '' @ var_name v @ '' '' @ at_position (var_position v)"

definition variables_listing :: "string \<Rightarrow> string \<Rightarrow> file_symbols \<Rightarrow> string list" where
  "variables_listing childIndent symbolType symbols =
     (if wanted symbolType ''variables'' \<and> length (sym_variables symbols) > 0 then
        [childIndent @ ''    Variables:'' @ [CHR 0x0A],
         join [CHR 0x0A] (map (variable_line childIndent) (sym_variables symbols)) @ [CHR 0x0A]]
      else [])"

definition method_line :: "string \<Rightarrow> method_rec \<Rightarrow> string" where
  "method_line childIndent m =
     childIndent @ ''      - '' @ (if m_isStatic m then ''static '' else []) @ m_name m
       @ '' '' @ at_position (m_position m)"

definition class_info :: "string \<Rightarrow> class_rec \<Rightarrow> string" where
  "class_info childIndent c =
     childIndent @ ''    - '' @ cls_name c @ '' '' @ at_position (cls_position c)
       @ (if length (cls_methods c) > 0 then
            [CHR 0x0A] @ childIndent @ ''      Methods:'' @ [CHR 0x0A]
              @ join [CHR 0x0A] (map (method_line childIndent) (cls_methods c))
          else [])"

definition classes_listing :: "string \<Rightarrow> string \<Rightarrow> file_symbols \<Rightarrow> string list" where
  "classes_listing childIndent symbolType symbols =
     (if wanted symbolType ''classes'' \<and> length (sym_classes symbols) > 0 then
        [childIndent @ ''    Classes:'' @ [CHR 0x0A],
         join [CHR 0x0A] (map (class_info childIndent) (sym_classes symbols)) @ [CHR 0x0A]]
      else [])"

definition item_text :: "item_rec \<Rightarrow> string" where
  "item_text item =
     item_name item @ (if truthy (item_alias item) then '' as '' @ the (item_alias item) else [])"

definition items_text :: "item_rec list \<Rightarrow> string" where
  "items_text items = (if length items > 0 then '': '' @ join '', '' (map item_text items) else [])"

definition import_info :: "string \<Rightarrow> import_rec \<Rightarrow> string" where
  "import_info childIndent imp =
     childIndent @ ''    - from '' @ [CHR 0x27] @ imp_source imp @ [CHR 0x27] @ items_text (imp_items imp)"

definition imports_listing :: "string \<Rightarrow> string \<Rightarrow> file_symbols \<Rightarrow> string list" where
  "imports_listing childIndent symbolType symbols =
     (if wanted symbolType ''imports'' \<and> length (sym_imports symbols) > 0 then
        [childIndent @ ''    Imports:'' @ [CHR 0x0A],
         join [CHR 0x0A] (map (import_info childIndent) (sym_imports symbols)) @ [CHR 0x0A]]
      else [])"

definition export_info :: "string \<Rightarrow> export_rec \<Rightarrow> string" where
  "export_info childIndent expRec =
     childIndent @ ''    - '' @ (if exp_isDefault expRec then ''default export'' else ''export'')
       @ (if truthy (exp_source expRec) then '' from '' @ [CHR 0x27] @ the (exp_source expRec) @ [CHR 0x27] else [])
       @ items_text (exp_items expRec)"

definition exports_listing :: "string \<Rightarrow> string \<Rightarrow> file_symbols \<Rightarrow> string list" where
  "exports_listing childIndent symbolType symbols =
     (if wanted symbolType ''exports'' \<and> length (sym_exports symbols) > 0 then
        [childIndent @ ''    Exports:'' @ [CHR 0x0A],
         join [CHR 0x0A] (map (export_info childIndent) (sym_exports symbols)) @ [CHR 0x0A]]
      else [])"

definition file_report :: "string \<Rightarrow> bool \<Rightarrow> string \<Rightarrow> file_symbols \<Rightarrow> string list" where
  "file_report childIndent includeSymbols symbolType symbols =
     summary_line childIndent symbols #
       (if includeSymbols then
          functions_listing childIndent symbolType symbols
            @ variables_listing childIndent symbolType symbols
            @ classes_listing childIndent symbolType symbols
            @ imports_listing childIndent symbolType symbols
            @ exports_listing childIndent symbolType symbols
        else [])"

definition store_symbols :: "string \<Rightarrow> file_symbols \<Rightarrow> code_symbols \<Rightarrow> code_symbols" where
  "store_symbols itemPath symbols cs =
     \<lparr>cs_functions = store_set itemPath (sym_functions symbols) (cs_functions cs),
      cs_variables = store_set itemPath (sym_variables symbols) (cs_variables cs),
      cs_classes = store_set itemPath (sym_classes symbols) (cs_classes cs),
      cs_imports = store_set itemPath (sym_imports symbols) (cs_imports cs),
      cs_exports = store_set itemPath (sym_exports symbols) (cs_exports cs),
      cs_files = set_add itemPath (cs_files cs)\<rparr>"

section \<open>The tree walker\<close>

text \<open>
  The file system below the traversal root: a file has a name, a size in bytes and what
  reading it gives (its text, or the error thrown); a directory has a name and its
  entries in the order \<open>readdirSync\<close> lists them.
\<close>

datatype fsnode =
    File string nat "js_error + string"
  | Dir string "fsnode list"

fun entry_name :: "fsnode \<Rightarrow> string" where
  "entry_name (File name bytes content) = name"
| "entry_name (Dir name entries) = name"

fun isDirectory :: "fsnode \<Rightarrow> bool" where
  "isDirectory (File name bytes content) = False"
| "isDirectory (Dir name entries) = True"

text \<open>What reading \<open>.gitignore\<close> in a directory gives, if anything.\<close>

definition read_gitignore :: "fsnode list \<Rightarrow> string option" where
  "read_gitignore entries =
     (case find (\<lambda>e. entry_name e = ''.gitignore'') entries of
        Some (File name bytes (Inr text)) \<Rightarrow> Some text
      | _ \<Rightarrow> None)"

definition defaultIgnorePatterns :: "string list" where
  "defaultIgnorePatterns =
     [''^node_modules($|/)'',
      ''^.git($|/)'',
      [CHR 0x5C] @ ''.log$'',
      [CHR 0x5C] @ ''.tmp$'',
      [CHR 0x5C] @ ''.temp$'',
      [CHR 0x5C] @ ''.swp$'',
      [CHR 0x5C] @ ''.DS_Store$'',
      [CHR 0x5C] @ ''.vscode($|/)'',
      [CHR 0x5C] @ ''.idea($|/)'',
      [CHR 0x5C] @ ''.vs($|/)'',
      ''^dist($|/)'',
      ''^build($|/)'',
      ''^coverage($|/)'']"

record walk_cfg =
  engine :: regexp_engine
  treeSitter :: ts_env
  rootPath :: string
  filePatterns :: "string list option"
  includeSymbols :: bool
  symbolType :: string
  maxDepth :: real

definition entry_line :: "string \<Rightarrow> bool \<Rightarrow> fsnode \<Rightarrow> string" where
  "entry_line indent isLast item =
     indent @ (if isLast then box_last else box_item) @
       (case item of
          Dir name entries \<Rightarrow> name @ ''/'' @ [CHR 0x0A]
        | File name bytes content \<Rightarrow>
            name @ '' ('' @ show_nat ((bytes + 1023) div 1024) @ '' KB)'' @ [CHR 0x0A])"

definition child_indent :: "string \<Rightarrow> bool \<Rightarrow> string" where
  "child_indent indent isLast = indent @ (if isLast then ''    '' else box_bar)"

text \<open>
  The analysis of one file, after its line has been written.  \<open>Inl\<close> is an error thrown
  out of the loop (the classifier is called outside the inner \<open>try\<close>); a failure to read
  or to extract is caught and logged.
\<close>

definition analyze_file ::
  "walk_cfg \<Rightarrow> string \<Rightarrow> string \<Rightarrow> bool \<Rightarrow> nat \<Rightarrow> js_error + string \<Rightarrow> js_state
     \<Rightarrow> (js_error + string list) \<times> js_state" where
  "analyze_file cfg itemPath childIndent analyzeJs currentDepth content st =
     (if analyzeJs \<and> real currentDepth \<le> maxDepth cfg then
        (case isSupportedFile (engine cfg) itemPath (filePatterns cfg) of
           Inl error \<Rightarrow> (Inl error, st)
         | Inr False \<Rightarrow> (Inr [], st)
         | Inr True \<Rightarrow>
             (case content of
                Inl error \<Rightarrow>
                  (Inr [], log_error (''Error analyzing '' @ itemPath @ '': '' @ message error) st)
              | Inr fileContent \<Rightarrow>
                  (case extractCodeSymbols (treeSitter cfg) st itemPath fileContent of
                     (Inl error, st') \<Rightarrow>
                       (Inr [], log_error (''Error analyzing '' @ itemPath @ '': '' @ message error) st')
                   | (Inr None, st') \<Rightarrow> (Inr [], st')
                   | (Inr (Some symbols), st') \<Rightarrow>
                       (Inr (file_report childIndent (includeSymbols cfg) (symbolType cfg) symbols),
                        st'\<lparr>codeSymbols := store_symbols itemPath symbols (codeSymbols st')\<rparr>))))
      else (Inr [], st))"

fun getDirectoryTree ::
  "walk_cfg \<Rightarrow> string \<Rightarrow> string list \<Rightarrow> string \<Rightarrow> bool \<Rightarrow> nat \<Rightarrow> fsnode list \<Rightarrow> js_state
     \<Rightarrow> string list \<times> js_state"
and walk_items ::
  "walk_cfg \<Rightarrow> string \<Rightarrow> string list \<Rightarrow> string \<Rightarrow> bool \<Rightarrow> nat \<Rightarrow> fsnode list \<Rightarrow> js_state
     \<Rightarrow> (js_error + string list) \<times> js_state" where
  "getDirectoryTree cfg dirPath ignorePatterns indent analyzeJs currentDepth entries st =
     (case walk_items cfg dirPath
             (defaultIgnorePatterns @ ignorePatterns @ parseGitignore (read_gitignore entries))
             indent analyzeJs currentDepth entries st of
        (Inl error, st') \<Rightarrow>
          ([indent @ ''Error: '' @ message error @ [CHR 0x0A]],
           log_error (''Error processing directory '' @ dirPath @ '': '' @ message error) st')
      | (Inr output, st') \<Rightarrow> (output, st'))"
| "walk_items cfg dirPath allIgnorePatterns indent analyzeJs currentDepth [] st = (Inr [], st)"
| "walk_items cfg dirPath allIgnorePatterns indent analyzeJs currentDepth (item # items) st =
     (let itemName = entry_name item; itemPath = path_join dirPath itemName in
      if itemName = ''.gitignore'' then
        walk_items cfg dirPath allIgnorePatterns indent analyzeJs currentDepth items st
      else if startsWith itemName ''.'' then
        walk_items cfg dirPath allIgnorePatterns indent analyzeJs currentDepth items st
      else
        (case shouldIgnore (engine cfg) itemPath (isDirectory item) allIgnorePatterns (rootPath cfg) of
           Inl error \<Rightarrow> (Inl error, st)
         | Inr True \<Rightarrow> walk_items cfg dirPath allIgnorePatterns indent analyzeJs currentDepth items st
         | Inr False \<Rightarrow>
             (let isLast = (items = []);
                  childIndent = child_indent indent isLast;
                  visited =
                    (case item of
                       Dir name entries \<Rightarrow>
                         (case getDirectoryTree cfg itemPath allIgnorePatterns childIndent
                                 (analyzeJs \<and> real currentDepth < maxDepth cfg)
                                 (currentDepth + 1) entries st of
                            (output, st') \<Rightarrow> (Inr output, st'))
                     | File name bytes content \<Rightarrow>
                         analyze_file cfg itemPath childIndent analyzeJs currentDepth content st)
              in case visited of
                   (Inl error, st') \<Rightarrow> (Inl error, st')
                 | (Inr added, st') \<Rightarrow>
                     (case walk_items cfg dirPath allIgnorePatterns indent analyzeJs currentDepth items st' of
                        (Inl error, st'') \<Rightarrow> (Inl error, st'')
                      | (Inr output, st'') \<Rightarrow>
                          (Inr (entry_line indent isLast item # added @ output), st'')))))"

text \<open>The top-level call: \<open>None\<close> when the path does not exist.\<close>

definition getDirectoryTree_top ::
  "walk_cfg \<Rightarrow> bool \<Rightarrow> fsnode list option \<Rightarrow> js_state \<Rightarrow> string list \<times> js_state" where
  "getDirectoryTree_top cfg analyzeJs dir st =
     (case dir of
        None \<Rightarrow> ([''Path does not exist: '' @ rootPath cfg], st)
      | Some entries \<Rightarrow> getDirectoryTree cfg (rootPath cfg) [] [] analyzeJs 0 entries st)"

text \<open>The visit of one entry that is not skipped, as \<open>walk_items\<close> makes it.\<close>

definition visit_item ::
  "walk_cfg \<Rightarrow> string \<Rightarrow> string list \<Rightarrow> string \<Rightarrow> bool \<Rightarrow> nat \<Rightarrow> bool \<Rightarrow> fsnode \<Rightarrow> js_state
     \<Rightarrow> (js_error + string list) \<times> js_state" where
  "visit_item cfg dirPath rules indent analyzeJs currentDepth isLast item st =
     (case item of
        Dir name entries \<Rightarrow>
          (case getDirectoryTree cfg (path_join dirPath name) rules (child_indent indent isLast)
                  (analyzeJs \<and> real currentDepth < maxDepth cfg) (currentDepth + 1) entries st of
             (output, st') \<Rightarrow> (Inr output, st'))
      | File name bytes content \<Rightarrow>
          analyze_file cfg (path_join dirPath name) (child_indent indent isLast)
            analyzeJs currentDepth content st)"

section \<open>Example trees\<close>

text \<open>
  The trees the JavaScript and Python grammars give for a few one-line sources, used to
  run the extractor on concrete inputs.
\<close>

text \<open>\<^verbatim>\<open>const f = () => 1;\<close>\<close>

definition scenario_b_tree :: node where
  "scenario_b_tree =
     Node None ''program'' ''const f = () => 1;'' (0, 0) (0, 18) True
       [Node None ''lexical_declaration'' ''const f = () => 1;'' (0, 0) (0, 18) True
          [Node (Some ''kind'') ''const'' ''const'' (0, 0) (0, 5) False [],
           Node None ''variable_declarator'' ''f = () => 1'' (0, 6) (0, 17) True
             [Node (Some ''name'') ''identifier'' ''f'' (0, 6) (0, 7) True [],
              Node None ''='' ''='' (0, 8) (0, 9) False [],
              Node (Some ''value'') ''arrow_function'' ''() => 1'' (0, 10) (0, 17) True
                [Node (Some ''parameters'') ''formal_parameters'' ''()'' (0, 10) (0, 12) True
                   [Node None ''('' ''('' (0, 10) (0, 11) False [],
                    Node None '')'' '')'' (0, 11) (0, 12) False []],
                 Node None ''=>'' ''=>'' (0, 13) (0, 15) False [],
                 Node (Some ''body'') ''number'' ''1'' (0, 16) (0, 17) True []]],
           Node None '';'' '';'' (0, 17) (0, 18) False []]]"

text \<open>\<^verbatim>\<open>function foo(){return 1;}\<close>\<close>

definition scenario_a_source :: string where
  "scenario_a_source = ''function foo(){return 1;}''"

definition scenario_a_tree :: node where
  "scenario_a_tree =
     Node None ''program'' ''function foo(){return 1;}'' (0, 0) (0, 25) True
       [Node None ''function_declaration'' ''function foo(){return 1;}'' (0, 0) (0, 25) True
          [Node None ''function'' ''function'' (0, 0) (0, 8) False [],
           Node (Some ''name'') ''identifier'' ''foo'' (0, 9) (0, 12) True [],
           Node (Some ''parameters'') ''formal_parameters'' ''()'' (0, 12) (0, 14) True
             [Node None ''('' ''('' (0, 12) (0, 13) False [],
              Node None '')'' '')'' (0, 13) (0, 14) False []],
           Node (Some ''body'') ''statement_block'' ''{return 1;}'' (0, 14) (0, 25) True
             [Node None ''{'' ''{'' (0, 14) (0, 15) False [],
              Node None ''return_statement'' ''return 1;'' (0, 15) (0, 24) True
                [Node None ''return'' ''return'' (0, 15) (0, 21) False [],
                 Node None ''number'' ''1'' (0, 22) (0, 23) True [],
                 Node None '';'' '';'' (0, 23) (0, 24) False []],
              Node None ''}'' ''}'' (0, 24) (0, 25) False []]]]"

text \<open>
  A default-exported function expression whose text is longer than 100 characters:
  \<^verbatim>\<open>export default function () { return "x...x"; }\<close> with 100 letters in the string.
\<close>

definition long_string :: string where
  "long_string = [CHR 0x22] @ replicate 100 (CHR ''x'') @ [CHR 0x22]"

definition long_function_text :: string where
  "long_function_text = ''function () { return '' @ long_string @ ''; }''"

definition long_anonymous_tree :: node where
  "long_anonymous_tree =
     Node None ''program'' (''export default '' @ long_function_text) (0, 0) (0, 141) True
       [Node None ''export_statement'' (''export default '' @ long_function_text) (0, 0) (0, 141) True
          [Node None ''export'' ''export'' (0, 0) (0, 6) False [],
           Node None ''default'' ''default'' (0, 7) (0, 14) False [],
           Node (Some ''value'') ''function'' long_function_text (0, 15) (0, 141) True
             [Node None ''function'' ''function'' (0, 15) (0, 23) False [],
              Node (Some ''parameters'') ''formal_parameters'' ''()'' (0, 24) (0, 26) True
                [Node None ''('' ''('' (0, 24) (0, 25) False [],
                 Node None '')'' '')'' (0, 25) (0, 26) False []],
              Node (Some ''body'') ''statement_block''
                (''{ return '' @ long_string @ ''; }'') (0, 27) (0, 141) True
                [Node None ''{'' ''{'' (0, 27) (0, 28) False [],
                 Node None ''return_statement'' (''return '' @ long_string @ '';'')
                   (0, 29) (0, 139) True
                   [Node None ''return'' ''return'' (0, 29) (0, 35) False [],
                    Node None ''string'' long_string (0, 36) (0, 138) True [],
                    Node None '';'' '';'' (0, 138) (0, 139) False []],
                 Node None ''}'' ''}'' (0, 140) (0, 141) False []]]]]"

text \<open>\<^verbatim>\<open>def f(): pass\<close>\<close>

definition short_def_tree :: node where
  "short_def_tree =
     Node None ''module'' ''def f(): pass'' (0, 0) (0, 13) True
       [Node None ''function_definition'' ''def f(): pass'' (0, 0) (0, 13) True
          [Node None ''def'' ''def'' (0, 0) (0, 3) False [],
           Node (Some ''name'') ''identifier'' ''f'' (0, 4) (0, 5) True [],
           Node (Some ''parameters'') ''parameters'' ''()'' (0, 5) (0, 7) True
             [Node None ''('' ''('' (0, 5) (0, 6) False [],
              Node None '')'' '')'' (0, 6) (0, 7) False []],
           Node None '':'' '':'' (0, 7) (0, 8) False [],
           Node (Some ''body'') ''block'' ''pass'' (0, 9) (0, 13) True
             [Node None ''pass_statement'' ''pass'' (0, 9) (0, 13) True
                [Node None ''pass'' ''pass'' (0, 9) (0, 13) False []]]]]"

text \<open>\<^verbatim>\<open>class A { m() {} }\<close> and \<^verbatim>\<open>class A { anonymous() {} }\<close>\<close>

definition method_node :: "string \<Rightarrow> node" where
  "method_node m =
     (let k = length m in
      Node (Some ''member'') ''method_definition'' (m @ ''() {}'') (0, 10) (0, 15 + k) True
        [Node (Some ''name'') ''property_identifier'' m (0, 10) (0, 10 + k) True [],
         Node (Some ''parameters'') ''formal_parameters'' ''()'' (0, 10 + k) (0, 12 + k) True
           [Node None ''('' ''('' (0, 10 + k) (0, 11 + k) False [],
            Node None '')'' '')'' (0, 11 + k) (0, 12 + k) False []],
         Node (Some ''body'') ''statement_block'' ''{}'' (0, 13 + k) (0, 15 + k) True
           [Node None ''{'' ''{'' (0, 13 + k) (0, 14 + k) False [],
            Node None ''}'' ''}'' (0, 14 + k) (0, 15 + k) False []]])"

definition class_body_node :: "string \<Rightarrow> node" where
  "class_body_node m =
     (let k = length m in
      Node (Some ''body'') ''class_body'' (''{ '' @ m @ ''() {} }'') (0, 8) (0, 17 + k) True
        [Node None ''{'' ''{'' (0, 8) (0, 9) False [],
         method_node m,
         Node None ''}'' ''}'' (0, 16 + k) (0, 17 + k) False []])"

definition class_node :: "string \<Rightarrow> node" where
  "class_node m =
     (let k = length m in
      Node None ''class_declaration'' (''class A { '' @ m @ ''() {} }'') (0, 0) (0, 17 + k) True
        [Node None ''class'' ''class'' (0, 0) (0, 5) False [],
         Node (Some ''name'') ''identifier'' ''A'' (0, 6) (0, 7) True [],
         class_body_node m])"

definition class_tree :: "string \<Rightarrow> node" where
  "class_tree m =
     Node None ''program'' (''class A { '' @ m @ ''() {} }'') (0, 0) (0, 17 + length m) True
       [class_node m]"

text \<open>The two lines \<^verbatim>\<open>x = 1\<close> and \<^verbatim>\<open>def g(): pass\<close>.\<close>

definition two_line_source :: string where
  "two_line_source = ''x = 1'' @ [CHR 0x0A] @ ''def g(): pass''"

definition two_line_tree :: node where
  "two_line_tree =
     Node None ''module'' two_line_source (0, 0) (1, 13) True
       [Node None ''expression_statement'' ''x = 1'' (0, 0) (0, 5) True
          [Node None ''assignment'' ''x = 1'' (0, 0) (0, 5) True
             [Node (Some ''left'') ''identifier'' ''x'' (0, 0) (0, 1) True [],
              Node None ''='' ''='' (0, 2) (0, 3) False [],
              Node (Some ''right'') ''integer'' ''1'' (0, 4) (0, 5) True []]],
        Node None ''function_definition'' ''def g(): pass'' (1, 0) (1, 13) True
          [Node None ''def'' ''def'' (1, 0) (1, 3) False [],
           Node (Some ''name'') ''identifier'' ''g'' (1, 4) (1, 5) True [],
           Node (Some ''parameters'') ''parameters'' ''()'' (1, 5) (1, 7) True
             [Node None ''('' ''('' (1, 5) (1, 6) False [],
              Node None '')'' '')'' (1, 6) (1, 7) False []],
           Node None '':'' '':'' (1, 7) (1, 8) False [],
           Node (Some ''body'') ''block'' ''pass'' (1, 9) (1, 13) True
             [Node None ''pass_statement'' ''pass'' (1, 9) (1, 13) True
                [Node None ''pass'' ''pass'' (1, 9) (1, 13) False []]]]]"

section \<open>Slicing a source text by a span\<close>

text \<open>
  Used to state the round trip between positions and code: the text between two
  (row, column) positions of a source, rows being separated by line feeds.
\<close>

definition offset :: "string \<Rightarrow> nat \<times> nat \<Rightarrow> nat" where
  "offset src rc = sum_list (map (\<lambda>l. length l + 1) (take (fst rc) (split_lines src))) + snd rc"

definition slice_span :: "string \<Rightarrow> nat \<times> nat \<Rightarrow> nat \<times> nat \<Rightarrow> string" where
  "slice_span src s e = take (offset src e - offset src s) (drop (offset src s) src)"

definition slice_position :: "string \<Rightarrow> position \<Rightarrow> string" where
  "slice_position src p =
     slice_span src (startLine p - 1, startCol p) (endLine p - 1, endCol p)"

text \<open>The parser's contract: the text of every node is the slice of the source at its span.\<close>

definition consistent :: "string \<Rightarrow> node \<Rightarrow> bool" where
  "consistent src rootNode =
     list_all (\<lambda>loc. ntext (snd loc) = slice_span src (nstart (snd loc)) (nend (snd loc)))
       (descendants [] rootNode)"

section \<open>An example environment\<close>

text \<open>
  A state in which both grammars are loaded, and a parser that knows the example sources
  above and throws on anything else.
\<close>

definition empty_code_symbols :: code_symbols where
  "empty_code_symbols =
     \<lparr>cs_functions = [], cs_variables = [], cs_classes = [], cs_imports = [], cs_exports = [],
      cs_files = []\<rparr>"

definition ready_state :: js_state where
  "ready_state =
     \<lparr>initialized = True,
      languageInstances = [''tree-sitter-javascript.wasm'', ''tree-sitter-python.wasm''],
      codeSymbols = empty_code_symbols,
      console = []\<rparr>"

definition example_parse :: "string \<Rightarrow> string \<Rightarrow> js_error + node" where
  "example_parse wasmFile fileContent =
     (if wasmFile = ''tree-sitter-javascript.wasm'' \<and> fileContent = ''const f = () => 1;''
      then Inr scenario_b_tree
      else if wasmFile = ''tree-sitter-javascript.wasm'' \<and> fileContent = scenario_a_source
      then Inr scenario_a_tree
      else if wasmFile = ''tree-sitter-python.wasm'' \<and> fileContent = ''def f(): pass''
      then Inr short_def_tree
      else Inl (Error ''unexpected input''))"

definition example_env :: ts_env where
  "example_env =
     \<lparr>initializeTreeSitter =
        (\<lambda>st. (None, st\<lparr>initialized := True,
                         languageInstances :=
                           [''tree-sitter-javascript.wasm'', ''tree-sitter-python.wasm'']\<rparr>)),
      parse = example_parse\<rparr>"

section \<open>The directory listing on its own\<close>

text \<open>
  The listing the walker is specified to render, written without any reference to code
  analysis or to depth: at each directory the default ignore rules, the inherited ones
  and those of the directory's own ignore file are merged; the ignore file and every
  dot-entry are skipped, then every entry the merged rules match; every other entry gets
  its line, and a subdirectory is always entered.  A failure while a directory is being
  listed replaces the text of that directory by an inline error note.
\<close>

fun tree_listing ::
  "regexp_engine \<Rightarrow> string \<Rightarrow> string \<Rightarrow> string list \<Rightarrow> string \<Rightarrow> fsnode list \<Rightarrow> string list"
and listing_items ::
  "regexp_engine \<Rightarrow> string \<Rightarrow> string \<Rightarrow> string list \<Rightarrow> string \<Rightarrow> fsnode list
     \<Rightarrow> js_error + string list" where
  "tree_listing eng rootDir dirPath inherited indent entries =
     (case listing_items eng rootDir dirPath
             (defaultIgnorePatterns @ inherited @ parseGitignore (read_gitignore entries))
             indent entries of
        Inl error \<Rightarrow> [indent @ ''Error: '' @ message error @ [CHR 0x0A]]
      | Inr lines \<Rightarrow> lines)"
| "listing_items eng rootDir dirPath rules indent [] = Inr []"
| "listing_items eng rootDir dirPath rules indent (item # items) =
     (if entry_name item = ''.gitignore'' \<or> startsWith (entry_name item) ''.'' then
        listing_items eng rootDir dirPath rules indent items
      else
        (case shouldIgnore eng (path_join dirPath (entry_name item)) (isDirectory item) rules rootDir of
           Inl error \<Rightarrow> Inl error
         | Inr True \<Rightarrow> listing_items eng rootDir dirPath rules indent items
         | Inr False \<Rightarrow>
             (case listing_items eng rootDir dirPath rules indent items of
                Inl error \<Rightarrow> Inl error
              | Inr lines \<Rightarrow>
                  Inr (entry_line indent (items = []) item
                       # (case item of
                            Dir name entries \<Rightarrow>
                              tree_listing eng rootDir (path_join dirPath (entry_name item)) rules
                                (child_indent indent (items = [])) entries
                          | File name bytes content \<Rightarrow> [])
                       @ lines))))"

text \<open>
  The file patterns whose wildcard forms the engine accepts: with them the classifier
  never throws.
\<close>

definition patterns_accepted :: "regexp_engine \<Rightarrow> string list option \<Rightarrow> bool" where
  "patterns_accepted eng customPatterns =
     (case customPatterns of
        None \<Rightarrow> True
      | Some patterns \<Rightarrow>
          list_all (\<lambda>pattern.
              str_includes pattern ''*'' \<longrightarrow>
                (case RegExp eng (''^'' @ replaceAll ''*'' ''.*''
                                          (replaceAll ''.'' [CHR 0x5C, CHR ''.''] pattern) @ ''$'') of
                   Inl error \<Rightarrow> False
                 | Inr test \<Rightarrow> True))
            patterns)"

text \<open>
  The entries the walker finds visible, line by line: an entry is visible when it is not
  the ignore file, not a dot-entry, and \<open>shouldIgnore\<close> returns \<open>false\<close> for it under
  the merged rules of its directory; the entries of a visible subdirectory follow its
  line.  An entry for which \<open>shouldIgnore\<close> throws is not counted as visible.
\<close>

fun visible_lines ::
  "regexp_engine \<Rightarrow> string \<Rightarrow> string \<Rightarrow> string list \<Rightarrow> string \<Rightarrow> fsnode list \<Rightarrow> string list"
and visible_items ::
  "regexp_engine \<Rightarrow> string \<Rightarrow> string \<Rightarrow> string list \<Rightarrow> string \<Rightarrow> fsnode list \<Rightarrow> string list" where
  "visible_lines eng rootDir dirPath inherited indent entries =
     visible_items eng rootDir dirPath
       (defaultIgnorePatterns @ inherited @ parseGitignore (read_gitignore entries))
       indent entries"
| "visible_items eng rootDir dirPath rules indent [] = []"
| "visible_items eng rootDir dirPath rules indent (item # items) =
     (if entry_name item \<noteq> ''.gitignore'' \<and> \<not> startsWith (entry_name item) ''.''
         \<and> shouldIgnore eng (path_join dirPath (entry_name item)) (isDirectory item) rules rootDir
             = Inr False
      then entry_line indent (items = []) item
           # (case item of
                Dir name entries \<Rightarrow>
                  visible_lines eng rootDir (path_join dirPath (entry_name item)) rules
                    (child_indent indent (items = [])) entries
              | File name bytes content \<Rightarrow> [])
           @ visible_items eng rootDir dirPath rules indent items
      else visible_items eng rootDir dirPath rules indent items)"

section \<open>Files by depth\<close>

text \<open>
  The files below a directory, each with its path and its depth: a file of the directory
  itself has depth 0, and each subdirectory on the way to a file adds one.
\<close>

fun files_of :: "string \<Rightarrow> fsnode \<Rightarrow> (nat \<times> string) list" where
  "files_of dirPath (File name bytes content) = [(0, path_join dirPath name)]"
| "files_of dirPath (Dir name entries) =
     map (\<lambda>(depth, p). (Suc depth, p)) (concat (map (files_of (path_join dirPath name)) entries))"

definition files_below :: "string \<Rightarrow> fsnode list \<Rightarrow> (nat \<times> string) list" where
  "files_below dirPath entries = concat (map (files_of dirPath) entries)"

section \<open>An example directory\<close>

text \<open>
  Scenario E: a root \<open>/p\<close> holding the file \<open>a.js\<close> and the directory \<open>sub\<close>, which
  holds the file \<open>b.js\<close>.
\<close>

definition scenario_e_entries :: "fsnode list" where
  "scenario_e_entries =
     [File ''a.js'' 18 (Inr ''const f = () => 1;''),
      Dir ''sub'' [File ''b.js'' 25 (Inr scenario_a_source)]]"

definition scenario_e_cfg :: "real \<Rightarrow> walk_cfg" where
  "scenario_e_cfg depth =
     \<lparr>engine = fragment_only, treeSitter = example_env, rootPath = ''/p'',
      filePatterns = None, includeSymbols = False, symbolType = ''all'', maxDepth = depth\<rparr>"

text \<open>
  A root \<open>/p\<close> whose ignore file has the one line \<open>c++\<close> and which holds the file
  \<open>z.txt\<close>; a root holding only the directory \<open>sub\<close> with the file \<open>b.js\<close>; and a
  call with the file pattern \<open>*.c++\<close>.
\<close>

definition plus_rule_entries :: "fsnode list" where
  "plus_rule_entries = [File ''.gitignore'' 3 (Inr ''c++''), File ''z.txt'' 5 (Inr ''hello'')]"

definition sub_only_entries :: "fsnode list" where
  "sub_only_entries = [Dir ''sub'' [File ''b.js'' 25 (Inr scenario_a_source)]]"

definition pattern_cfg :: "real \<Rightarrow> walk_cfg" where
  "pattern_cfg depth = (scenario_e_cfg depth)\<lparr>filePatterns := Some [''*.c++'']\<rparr>"

section \<open>Literal names in an ignore file\<close>

text \<open>
  A literal directory name, for the statement that such names are matched: a non-empty
  name of ASCII characters that are a dot or no syntax character of regular expressions,
  with no line feed, no white space at either end, no leading \<open>#\<close>, and not containing
  the compiler's own placeholder.  A literal line is such a name, alone or followed by
  one separator.
\<close>

definition literal_char :: "char \<Rightarrow> bool" where
  "literal_char c =
     ((of_char c :: nat) < 128 \<and> (c = CHR ''.'' \<or> (c \<notin> set syntax_chars \<and> c \<noteq> CHR 0x0A)))"

definition literal_name :: "string \<Rightarrow> bool" where
  "literal_name n =
     (n \<noteq> [] \<and> list_all literal_char n \<and> \<not> is_space (hd n) \<and> \<not> is_space (last n)
      \<and> hd n \<noteq> CHR ''#'' \<and> \<not> str_includes n ''__DOUBLE_STAR__'')"

definition literal_line :: "string \<Rightarrow> string \<Rightarrow> bool" where
  "literal_line n l = (literal_name n \<and> (l = n \<or> l = n @ ''/''))"

definition escape_dots :: "string \<Rightarrow> string" where
  "escape_dots s = concat (map (\<lambda>c. if c = CHR ''.'' then [CHR 0x5C, CHR ''.''] else [c]) s)"

definition prefix_regex :: regex where
  "prefix_regex = Alt Bol (Alt (Seq (Star Dot) (Chr CHR ''/'')) (Seq Bol (Chr CHR ''/'')))"

definition suffix_regex :: regex where
  "suffix_regex = Alt Eol (Seq (Chr CHR ''/'') (Star Dot))"

section \<open>Facts about the file classifier\<close>

lemmas path_simps = extname_def basename_def is_sep_def toLowerCase_def toLowerChar_def
  upper_chars_def lower_chars_def startsWith_def endsWith_def

lemma takeWhile_shorter: "x \<in> set xs \<Longrightarrow> \<not> P x \<Longrightarrow> length (takeWhile P xs) < length xs"
  by (induction xs) auto

lemma extname_shorter:
  assumes "basename p \<noteq> []"
  shows "length (drop 1 (extname p)) < length (basename p)"
proof (cases "CHR ''.'' \<in> set (basename p)")
  case True
  then have "length (takeWhile (\<lambda>c. c \<noteq> CHR ''.'') (rev (basename p))) < length (rev (basename p))"
    by (intro takeWhile_shorter [where x = "CHR ''.''"]) auto
  then show ?thesis using assms by (auto simp: extname_def Let_def)
next
  case False
  then show ?thesis using assms by (simp add: extname_def Let_def)
qed

lemma some_pattern_all_return:
  assumes "\<forall>p \<in> set ps. \<exists>b. matches_pattern eng filePath p = Inr b"
  shows "some_pattern eng filePath ps = Inr (\<exists>p \<in> set ps. matches_pattern eng filePath p = Inr True)"
  using assms by (induction ps) (auto split: sum.splits bool.splits)

text \<open>
  A pattern without wildcard and without leading dot that is the basename of the path
  never selects the path: the extension is shorter than the basename.
\<close>

lemma exact_name_is_no_extension:
  assumes "basename filePath \<noteq> []" "\<not> str_includes (basename filePath) ''*''"
    "\<not> startsWith (basename filePath) ''.''"
  shows "matches_pattern eng filePath (basename filePath) = Inr False"
proof -
  have "length (toLowerCase (drop 1 (extname filePath))) < length (toLowerCase (basename filePath))"
    using extname_shorter [OF assms(1)] by (simp add: toLowerCase_def)
  then have "toLowerCase (drop 1 (extname filePath)) \<noteq> toLowerCase (basename filePath)"
    by auto
  then show ?thesis using assms by (simp add: matches_pattern_def Let_def)
qed

text \<open>
  Claim C3 at a pattern that is an exact file name.  A pattern without wildcard and
  without leading dot is compared with the extension of the path and with nothing else
  (lemma \<open>exact_name_is_no_extension\<close>).  So the pattern \<open>package.json\<close> does not
  select \<open>a/package.json\<close>, alone or in the list \<open>package.json\<close>, \<open>*.config.js\<close>,
  although exact file names are among the documented pattern forms; the wildcard pattern
  of that list and the bare extension \<open>json\<close> select their files.
\<close>

theorem exact_filename_pattern_selects_nothing:
  "isSupportedFile eng ''a/package.json'' (Some [''package.json'']) = Inr False
   \<and> isSupportedFile eng ''a/package.json'' (Some [''package.json'', ''*.config.js'']) = Inr False
   \<and> isSupportedFile eng ''a/vite.config.js'' (Some [''package.json'', ''*.config.js'']) = Inr True
   \<and> isSupportedFile eng ''a/package.json'' (Some [''json'']) = Inr True"
  by code_simp

section \<open>Facts about extraction and rendering\<close>

lemma show_nat_digit [simp]: "n < 10 \<Longrightarrow> show_nat n = [digit_char n]"
  by (simp add: show_nat.simps)

lemma digit_chars [simp]: "digit_char 0 = CHR ''0''" "digit_char 1 = CHR ''1''"
  "digit_char (Suc 0) = CHR ''1''"
  by (simp_all add: digit_char_def)

lemma scenario_b_symbols:
  "extract_javascript scenario_b_tree =
     \<lparr>sym_functions = [],
      sym_variables = [\<lparr>var_name = ''f'', var_kind = ''const'',
          var_position = \<lparr>startLine = 1, startCol = 6, endLine = 1, endCol = 17\<rparr>,
          var_code = ''f = () => 1''\<rparr>],
      sym_classes = [], sym_imports = [], sym_exports = []\<rparr>"
  by code_simp

lemma scenario_b_name:
  "map js_function_name (descendantsOfType ([], scenario_b_tree) [''arrow_function'']) = [''f'']"
  by code_simp

text \<open>
  Claim C1, as the code has it.  For the file \<^verbatim>\<open>const f = () => 1;\<close> the name
  inferred for the arrow function is \<open>f\<close>.  The significance filter runs during
  extraction and drops the function there (an arrow function of fewer than 15 characters),
  so the extracted functions list is empty: with \<open>includeSymbols\<close> and symbol type
  \<open>functions\<close> the report of the file is the summary line alone, and that line counts
  0 functions.
\<close>

theorem scenario_b_short_arrow_dropped:
  "map js_function_name (descendantsOfType ([], scenario_b_tree) [''arrow_function'']) = [''f'']
   \<and> sym_functions (extract_javascript scenario_b_tree) = []
   \<and> file_report childIndent True ''functions'' (extract_javascript scenario_b_tree)
       = [childIndent @ box_last @ ''[Analyzed: 0 functions, 1 variables, 0 classes]'' @ [CHR 0x0A]]"
  by (simp add: scenario_b_name scenario_b_symbols file_report_def summary_line_def
        functions_listing_def variables_listing_def classes_listing_def imports_listing_def
        exports_listing_def wanted_def)

theorem scenario_b_summary_counterexample:
  "length (sym_functions (extract_javascript scenario_b_tree)) \<noteq> 1"
  by (simp add: scenario_b_symbols)

lemma long_anonymous_functions:
  "sym_functions (extract_javascript long_anonymous_tree) =
        [\<lparr>fn_name = ''anonymous'', fn_parent = None,
          fn_position = \<lparr>startLine = 1, startCol = 15, endLine = 1, endCol = 141\<rparr>,
          fn_code = long_function_text\<rparr>]"
  by code_simp

lemma long_anonymous_others:
  "sym_variables (extract_javascript long_anonymous_tree) = []"
  "sym_classes (extract_javascript long_anonymous_tree) = []"
  by code_simp+

lemma long_function_length: "length long_function_text = 126"
  by (simp add: long_function_text_def long_string_def)

text \<open>
  Claim C6.  The functions listing of a file is the listing of its records whose name is
  not \<open>anonymous\<close>: removing those records from the table changes nothing, and when
  functions are asked for, the listing is the header and one line per remaining record
  (nothing at all when none remains).  The witness is a default-exported function
  expression of 126 characters: it is extracted under the name \<open>anonymous\<close>, the
  summary line counts it, and the listing is empty.
\<close>

theorem functions_listing_drops_anonymous:
  "functions_listing childIndent symType symbols
     = functions_listing childIndent symType
         (symbols\<lparr>sym_functions := filter (\<lambda>fn. fn_name fn \<noteq> ''anonymous'') (sym_functions symbols)\<rparr>)
   \<and> (wanted symType ''functions'' \<longrightarrow>
        functions_listing childIndent symType symbols =
          (if filter (\<lambda>fn. fn_name fn \<noteq> ''anonymous'') (sym_functions symbols) = [] then []
           else [childIndent @ ''    Functions:'' @ [CHR 0x0A],
                 join [CHR 0x0A]
                   (map (function_line childIndent)
                      (filter (\<lambda>fn. fn_name fn \<noteq> ''anonymous'') (sym_functions symbols)))
                 @ [CHR 0x0A]]))"
proof (intro conjI impI)
  show "functions_listing childIndent symType symbols
     = functions_listing childIndent symType
         (symbols\<lparr>sym_functions := filter (\<lambda>fn. fn_name fn \<noteq> ''anonymous'') (sym_functions symbols)\<rparr>)"
    by (cases "sym_functions symbols") (auto simp: functions_listing_def Let_def)
next
  assume "wanted symType ''functions''"
  then show "functions_listing childIndent symType symbols =
          (if filter (\<lambda>fn. fn_name fn \<noteq> ''anonymous'') (sym_functions symbols) = [] then []
           else [childIndent @ ''    Functions:'' @ [CHR 0x0A],
                 join [CHR 0x0A]
                   (map (function_line childIndent)
                      (filter (\<lambda>fn. fn_name fn \<noteq> ''anonymous'') (sym_functions symbols)))
                 @ [CHR 0x0A]])"
    by (cases "sym_functions symbols") (auto simp: functions_listing_def Let_def)
qed

theorem functions_listing_drops_anonymous_witness:
  "wanted ''functions'' ''functions''
   \<and> map fn_name (sym_functions (extract_javascript long_anonymous_tree)) = [''anonymous'']
   \<and> 100 < length (fn_code (hd (sym_functions (extract_javascript long_anonymous_tree))))
   \<and> summary_line [] (extract_javascript long_anonymous_tree)
       = box_last @ ''[Analyzed: 1 functions, 0 variables, 0 classes]'' @ [CHR 0x0A]
   \<and> functions_listing [] ''functions'' (extract_javascript long_anonymous_tree) = []"
proof -
  have w: "wanted ''functions'' ''functions''"
    by (simp add: wanted_def)
  from functions_listing_drops_anonymous [of "[]" "''functions''" "extract_javascript long_anonymous_tree"] w
  have "functions_listing [] ''functions'' (extract_javascript long_anonymous_tree) =
          (if filter (\<lambda>fn. fn_name fn \<noteq> ''anonymous'')
                (sym_functions (extract_javascript long_anonymous_tree)) = [] then []
           else [[] @ ''    Functions:'' @ [CHR 0x0A],
                 join [CHR 0x0A]
                   (map (function_line [])
                      (filter (\<lambda>fn. fn_name fn \<noteq> ''anonymous'')
                         (sym_functions (extract_javascript long_anonymous_tree))))
                 @ [CHR 0x0A]])"
    by blast
  then have "functions_listing [] ''functions'' (extract_javascript long_anonymous_tree) = []"
    by (simp add: long_anonymous_functions)
  then show ?thesis
    using w by (simp add: long_anonymous_functions long_anonymous_others long_function_length
        summary_line_def)
qed

lemma short_def_functions:
  "sym_functions (extract_python short_def_tree) =
     [\<lparr>fn_name = ''f'', fn_parent = None,
       fn_position = \<lparr>startLine = 1, startCol = 0, endLine = 1, endCol = 13\<rparr>,
       fn_code = ''def f(): pass''\<rparr>]"
  by code_simp

lemma short_def_nodes:
  "filter (\<lambda>loc. ntype (snd loc) = ''function_definition'') (descendants [] short_def_tree)
     = [([short_def_tree], hd (nkids short_def_tree))]"
  by code_simp

text \<open>
  Claim C9.  For a Python tree the functions list has one record per
  \<open>function_definition\<close> node, in document order and without any filter: the record
  of each such node is in the list with the node's text, position and name.  For a path
  whose extension selects the Python grammar, this is the table \<open>extractCodeSymbols\<close>
  builds.  The witness is \<^verbatim>\<open>def f(): pass\<close>, 13 characters long.
\<close>

theorem python_functions_unfiltered:
  "length (sym_functions (extract_python rootNode))
     = length (filter (\<lambda>loc. ntype (snd loc) = ''function_definition'') (descendants [] rootNode))
   \<and> (\<forall>loc \<in> set (descendants [] rootNode).
         ntype (snd loc) = ''function_definition'' \<longrightarrow>
           py_function loc \<in> set (sym_functions (extract_python rootNode))
           \<and> fn_code (py_function loc) = ntext (snd loc)
           \<and> fn_position (py_function loc) = getPosition (snd loc)
           \<and> fn_name (py_function loc) = or_anonymous (childForFieldName (snd loc) ''name''))
   \<and> (getLanguageFromExtension filePath = Some ''tree-sitter-python.wasm''
        \<and> ''tree-sitter-python.wasm'' \<in> set (languageInstances st)
        \<and> parse env ''tree-sitter-python.wasm'' fileContent = Inr rootNode
       \<longrightarrow> extract_body env st filePath fileContent = Inr (Some (extract_python rootNode)))"
  by (auto simp: extract_python_def py_functions_def descendantsOfType_def py_function_def
        extract_body_def)

theorem python_functions_unfiltered_witness:
  "extract_body example_env ready_state ''a.py'' ''def f(): pass''
     = Inr (Some (extract_python short_def_tree))
   \<and> (\<exists>loc \<in> set (descendants [] short_def_tree).
       ntype (snd loc) = ''function_definition'' \<and> length (ntext (snd loc)) < 15
       \<and> py_function loc \<in> set (sym_functions (extract_python short_def_tree)))
   \<and> sym_functions (extract_python short_def_tree) =
     [\<lparr>fn_name = ''f'', fn_parent = None,
       fn_position = \<lparr>startLine = 1, startCol = 0, endLine = 1, endCol = 13\<rparr>,
       fn_code = ''def f(): pass''\<rparr>]"
proof -
  let ?loc = "([short_def_tree], hd (nkids short_def_tree))"
  have "?loc \<in> set (filter (\<lambda>loc. ntype (snd loc) = ''function_definition'') (descendants [] short_def_tree))"
    by (simp add: short_def_nodes)
  then have mem: "?loc \<in> set (descendants [] short_def_tree)"
    and ty: "ntype (snd ?loc) = ''function_definition''"
    by auto
  have len: "length (ntext (snd ?loc)) < 15"
    by (simp add: short_def_tree_def)
  note inst = python_functions_unfiltered
    [of short_def_tree "''a.py''" ready_state example_env "''def f(): pass''"]
  have lang: "getLanguageFromExtension ''a.py'' = Some ''tree-sitter-python.wasm''"
    by (simp add: getLanguageFromExtension_def SUPPORTED_LANGUAGES_def path_simps)
  have loaded: "''tree-sitter-python.wasm'' \<in> set (languageInstances ready_state)"
    by (simp add: ready_state_def)
  have parsed: "parse example_env ''tree-sitter-python.wasm'' ''def f(): pass'' = Inr short_def_tree"
    by (simp add: example_env_def example_parse_def)
  from inst lang loaded parsed
  have body: "extract_body example_env ready_state ''a.py'' ''def f(): pass''
     = Inr (Some (extract_python short_def_tree))"
    by blast
  from inst mem ty
  have "py_function ?loc \<in> set (sym_functions (extract_python short_def_tree))"
    by blast
  with mem ty len body show ?thesis
    using short_def_functions by blast
qed


section \<open>Facts about \<open>extractCodeSymbols\<close>\<close>

lemma extract_body_cases:
  "extract_body env st filePath fileContent =
     (case getLanguageFromExtension filePath of
        None \<Rightarrow> Inr None
      | Some w \<Rightarrow>
          if w \<notin> set (languageInstances st) then Inr None
          else (case parse env w fileContent of
                  Inl e \<Rightarrow> Inl e
                | Inr rootNode \<Rightarrow>
                    Inr (Some (if w = ''tree-sitter-javascript.wasm'' then extract_javascript rootNode
                               else if w = ''tree-sitter-python.wasm'' then extract_python rootNode
                               else empty_symbols))))"
  by (simp add: extract_body_def split: option.splits sum.splits)

lemma extract_tried_result:
  "fst (extract_tried env st filePath fileContent) =
     (case extract_body env st filePath fileContent of Inl e \<Rightarrow> Inr None | Inr r \<Rightarrow> Inr r)"
  by (simp add: extract_tried_def split: sum.splits)

lemma extract_tried_state:
  "snd (extract_tried env st filePath fileContent) =
     (case extract_body env st filePath fileContent of
        Inl e \<Rightarrow> log_error (''Error parsing '' @ filePath @ '': '' @ message e) st
      | Inr r \<Rightarrow> st)"
  by (simp add: extract_tried_def split: sum.splits)

lemma extract_body_state_independent:
  "languageInstances st' = languageInstances st \<Longrightarrow>
     extract_body env st' filePath fileContent = extract_body env st filePath fileContent"
  by (auto simp: extract_body_def split: option.splits)

text \<open>
  Claim C5.  Once the parser is initialized (the walker is only started after that),
  \<open>extractCodeSymbols\<close> never rejects: it returns \<open>null\<close> exactly when the extension
  of the path maps to no loaded grammar or when the parse step throws; in the latter case
  one line is written to the operator channel and nothing else changes; and when the
  grammar is loaded and the parse succeeds it returns a symbol table and leaves the state
  as it was.
\<close>

theorem extractCodeSymbols_null_exactly:
  "initialized st \<longrightarrow>
     (\<exists>result. fst (extractCodeSymbols env st filePath fileContent) = Inr result)
   \<and> (fst (extractCodeSymbols env st filePath fileContent) = Inr None \<longleftrightarrow>
        (\<forall>w. getLanguageFromExtension filePath = Some w \<longrightarrow> w \<notin> set (languageInstances st))
        \<or> (\<exists>w e. getLanguageFromExtension filePath = Some w \<and> w \<in> set (languageInstances st)
                  \<and> parse env w fileContent = Inl e))
   \<and> (\<forall>w e. getLanguageFromExtension filePath = Some w \<and> w \<in> set (languageInstances st)
               \<and> parse env w fileContent = Inl e \<longrightarrow>
         snd (extractCodeSymbols env st filePath fileContent)
           = st\<lparr>console := console st @ [''Error parsing '' @ filePath @ '': '' @ message e]\<rparr>)
   \<and> (\<forall>w rootNode. getLanguageFromExtension filePath = Some w \<and> w \<in> set (languageInstances st)
               \<and> parse env w fileContent = Inr rootNode \<longrightarrow>
         (\<exists>symbols. extractCodeSymbols env st filePath fileContent = (Inr (Some symbols), st)))"
proof (intro impI conjI allI)
  assume init: "initialized st"
  then have eq: "extractCodeSymbols env st filePath fileContent = extract_tried env st filePath fileContent"
    by (simp add: extractCodeSymbols_def)
  show "\<exists>result. fst (extractCodeSymbols env st filePath fileContent) = Inr result"
    unfolding eq extract_tried_result by (simp split: sum.splits)
  show "fst (extractCodeSymbols env st filePath fileContent) = Inr None \<longleftrightarrow>
        (\<forall>w. getLanguageFromExtension filePath = Some w \<longrightarrow> w \<notin> set (languageInstances st))
        \<or> (\<exists>w e. getLanguageFromExtension filePath = Some w \<and> w \<in> set (languageInstances st)
                  \<and> parse env w fileContent = Inl e)"
    unfolding eq extract_tried_result extract_body_cases
    by (auto split: option.splits sum.splits)
  fix w e
  assume "getLanguageFromExtension filePath = Some w \<and> w \<in> set (languageInstances st)
               \<and> parse env w fileContent = Inl e"
  then show "snd (extractCodeSymbols env st filePath fileContent)
           = st\<lparr>console := console st @ [''Error parsing '' @ filePath @ '': '' @ message e]\<rparr>"
    unfolding eq extract_tried_state extract_body_cases by (simp add: log_error_def)
next
  fix w rootNode
  assume init: "initialized st"
  assume "getLanguageFromExtension filePath = Some w \<and> w \<in> set (languageInstances st)
               \<and> parse env w fileContent = Inr rootNode"
  then show "\<exists>symbols. extractCodeSymbols env st filePath fileContent = (Inr (Some symbols), st)"
    using init by (simp add: extractCodeSymbols_def extract_tried_def extract_body_cases)
qed

lemma ready_initialized: "initialized ready_state"
  by (simp add: ready_state_def)

lemma lang_txt: "getLanguageFromExtension ''/p/notes.txt'' = None"
  by (simp add: getLanguageFromExtension_def SUPPORTED_LANGUAGES_def path_simps)

lemma lang_js: "getLanguageFromExtension ''/p/a.js'' = Some ''tree-sitter-javascript.wasm''"
  by (simp add: getLanguageFromExtension_def SUPPORTED_LANGUAGES_def path_simps)

theorem extractCodeSymbols_null_exactly_witness:
  "initialized ready_state
   \<and> fst (extractCodeSymbols example_env ready_state ''/p/notes.txt'' ''hello'') = Inr None
   \<and> extractCodeSymbols example_env ready_state ''/p/a.js'' ''((''
       = (Inr None, ready_state\<lparr>console := [''Error parsing /p/a.js: unexpected input'']\<rparr>)
   \<and> (\<exists>symbols. extractCodeSymbols example_env ready_state ''/p/a.js'' ''const f = () => 1;''
                   = (Inr (Some symbols), ready_state))"
proof -
  note inst1 = extractCodeSymbols_null_exactly [of ready_state example_env "''/p/notes.txt''" "''hello''"]
  note inst2 = extractCodeSymbols_null_exactly [of ready_state example_env "''/p/a.js''" "''((''"]
  note inst3 = extractCodeSymbols_null_exactly [of ready_state example_env "''/p/a.js''" "''const f = () => 1;''"]
  have loaded: "''tree-sitter-javascript.wasm'' \<in> set (languageInstances ready_state)"
    by (simp add: ready_state_def)
  have bad: "parse example_env ''tree-sitter-javascript.wasm'' ''(('' = Inl (Error ''unexpected input'')"
    by (simp add: example_env_def example_parse_def scenario_a_source_def)
  have good: "parse example_env ''tree-sitter-javascript.wasm'' ''const f = () => 1;'' = Inr scenario_b_tree"
    by (simp add: example_env_def example_parse_def)
  have c1: "fst (extractCodeSymbols example_env ready_state ''/p/notes.txt'' ''hello'') = Inr None"
    using inst1 ready_initialized lang_txt by simp
  have c2a: "fst (extractCodeSymbols example_env ready_state ''/p/a.js'' ''(('') = Inr None"
    using inst2 ready_initialized lang_js loaded bad by blast
  have c2b: "snd (extractCodeSymbols example_env ready_state ''/p/a.js'' ''(('')
               = ready_state\<lparr>console := console ready_state @ [''Error parsing '' @ ''/p/a.js'' @ '': '' @ message (Error ''unexpected input'')]\<rparr>"
    using inst2 ready_initialized lang_js loaded bad by blast
  have c2: "extractCodeSymbols example_env ready_state ''/p/a.js'' ''((''
       = (Inr None, ready_state\<lparr>console := [''Error parsing /p/a.js: unexpected input'']\<rparr>)"
    using c2a c2b by (simp add: prod_eq_iff ready_state_def)
  have c3: "\<exists>symbols. extractCodeSymbols example_env ready_state ''/p/a.js'' ''const f = () => 1;''
                   = (Inr (Some symbols), ready_state)"
    using inst3 ready_initialized lang_js loaded good by blast
  show ?thesis using ready_initialized c1 c2 c3 by blast
qed

text \<open>
  Claim C8.  With the parser initialized, running \<open>extractCodeSymbols\<close> a second time
  on the same path and text, in the state the first run left, gives the same result; more
  generally the result depends on the state only through the loaded grammars.  (The
  external parser is a function of the grammar and the text.)
\<close>

theorem extractCodeSymbols_deterministic:
  "(initialized st \<longrightarrow>
      fst (extractCodeSymbols env (snd (extractCodeSymbols env st filePath fileContent)) filePath fileContent)
        = fst (extractCodeSymbols env st filePath fileContent))
   \<and> (initialized st \<and> initialized st' \<and> languageInstances st' = languageInstances st \<longrightarrow>
      fst (extractCodeSymbols env st' filePath fileContent)
        = fst (extractCodeSymbols env st filePath fileContent))"
proof (intro conjI impI)
  assume init: "initialized st"
  let ?st1 = "snd (extractCodeSymbols env st filePath fileContent)"
  have st1: "initialized ?st1 \<and> languageInstances ?st1 = languageInstances st"
    using init by (simp add: extractCodeSymbols_def extract_tried_state log_error_def split: sum.splits)
  then show "fst (extractCodeSymbols env ?st1 filePath fileContent)
        = fst (extractCodeSymbols env st filePath fileContent)"
    using init extract_body_state_independent [of ?st1 st env filePath fileContent]
    by (simp add: extractCodeSymbols_def extract_tried_result)
next
  assume "initialized st \<and> initialized st' \<and> languageInstances st' = languageInstances st"
  then show "fst (extractCodeSymbols env st' filePath fileContent)
        = fst (extractCodeSymbols env st filePath fileContent)"
    using extract_body_state_independent [of st' st env filePath fileContent]
    by (simp add: extractCodeSymbols_def extract_tried_result)
qed

theorem extractCodeSymbols_deterministic_witness:
  "initialized ready_state
   \<and> fst (extractCodeSymbols example_env
            (snd (extractCodeSymbols example_env ready_state ''/p/a.js'' ''(('')) ''/p/a.js'' ''(('')
       = fst (extractCodeSymbols example_env ready_state ''/p/a.js'' ''(('')
   \<and> snd (extractCodeSymbols example_env ready_state ''/p/a.js'' ''(('') \<noteq> ready_state"
proof -
  have "extractCodeSymbols example_env ready_state ''/p/a.js'' ''((''
       = (Inr None, ready_state\<lparr>console := [''Error parsing /p/a.js: unexpected input'']\<rparr>)"
    by (simp add: extractCodeSymbols_def extract_tried_def extract_body_def lang_js ready_state_def
          example_env_def example_parse_def scenario_a_source_def log_error_def)
  then have "snd (extractCodeSymbols example_env ready_state ''/p/a.js'' ''(('') \<noteq> ready_state"
    by (simp add: ready_state_def)
  then show ?thesis
    using extractCodeSymbols_deterministic [of ready_state example_env "''/p/a.js''" "''((''" ready_state]
      ready_initialized by blast
qed

section \<open>Nodes and their ancestors\<close>

lemma descendants_self: "(anc, n) \<in> set (descendants anc n)"
  by (cases n) simp

lemma descendants_kid:
  "k \<in> set (nkids n) \<Longrightarrow> set (descendants (n # anc) k) \<subseteq> set (descendants anc n)"
  by (cases n) auto

lemma descendants_structure:
  "(anc', m) \<in> set (descendants anc n) \<Longrightarrow>
     (anc' = anc \<and> m = n)
     \<or> (\<exists>p rest. anc' = p # rest \<and> (rest, p) \<in> set (descendants anc n) \<and> m \<in> set (nkids p)
           \<and> length anc < length anc')"
proof (induction anc n arbitrary: anc' m rule: descendants.induct)
  case (1 anc f t x s e nm ks)
  let ?n = "Node f t x s e nm ks"
  from "1.prems" consider "anc' = anc \<and> m = ?n"
    | k where "k \<in> set ks" "(anc', m) \<in> set (descendants (?n # anc) k)"
    by auto
  then show ?case
  proof cases
    case 1
    then show ?thesis by simp
  next
    case 2
    from "1.IH" [OF 2(1) 2(2)]
    consider "anc' = ?n # anc \<and> m = k"
      | p rest where "anc' = p # rest" "(rest, p) \<in> set (descendants (?n # anc) k)"
          "m \<in> set (nkids p)" "length (?n # anc) < length anc'"
      by blast
    then show ?thesis
    proof cases
      case 1
      then show ?thesis using 2(1) descendants_self [of anc ?n] by auto
    next
      case 2
      note inner = this
      have "(rest, p) \<in> set (descendants anc ?n)"
        using inner(2) \<open>k \<in> set ks\<close> descendants_kid [of k ?n anc] by auto
      then show ?thesis using inner by auto
    qed
  qed
qed

lemma descendants_trans:
  "(anc', m) \<in> set (descendants anc n) \<Longrightarrow> set (descendants anc' m) \<subseteq> set (descendants anc n)"
proof (induction anc n arbitrary: anc' m rule: descendants.induct)
  case (1 anc f t x s e nm ks)
  let ?n = "Node f t x s e nm ks"
  from "1.prems" consider "anc' = anc \<and> m = ?n"
    | k where "k \<in> set ks" "(anc', m) \<in> set (descendants (?n # anc) k)"
    by auto
  then show ?case
  proof cases
    case 1
    then show ?thesis by simp
  next
    case 2
    from "1.IH" [OF 2(1) 2(2)] have "set (descendants anc' m) \<subseteq> set (descendants (?n # anc) k)" .
    then show ?thesis using descendants_kid [of k ?n anc] 2(1) by auto
  qed
qed

lemma descendants_child:
  "(rest, p) \<in> set (descendants anc n) \<Longrightarrow> m \<in> set (nkids p) \<Longrightarrow>
     (p # rest, m) \<in> set (descendants rest p)"
  using descendants_kid [of m p rest] descendants_self [of "p # rest" m] by auto

lemma grandparent_located:
  assumes "(b # c # rest, m) \<in> set (descendants [] rootNode)"
  shows "(rest, c) \<in> set (descendants [] rootNode) \<and> (b # c # rest, m) \<in> set (descendants rest c)"
proof -
  from descendants_structure [OF assms]
  have b: "(c # rest, b) \<in> set (descendants [] rootNode)" and mb: "m \<in> set (nkids b)"
    by auto
  from descendants_structure [OF b]
  have c: "(rest, c) \<in> set (descendants [] rootNode)" and bc: "b \<in> set (nkids c)"
    by auto
  have "(c # rest, b) \<in> set (descendants rest c)"
    using descendants_child [OF c bc] .
  then have "set (descendants (c # rest) b) \<subseteq> set (descendants rest c)"
    by (rule descendants_trans)
  moreover have "(b # c # rest, m) \<in> set (descendants (c # rest) b)"
    using descendants_child [OF b mb] .
  ultimately show ?thesis using c by auto
qed


text \<open>
  In a JavaScript-family tree, a \<open>method_definition\<close> node with a name, sitting in the
  class body of a \<open>class_declaration\<close> with a name, is recorded twice when it passes
  the significance filter (its name is not the string \<open>anonymous\<close>, or its text is longer
  than 100 characters): as a Function record whose parent is the class name, and as a
  Method of that class's Class record.
\<close>

lemma class_method_recorded_twice:
  assumes loc: "(body # cls # rest, m) \<in> set (descendants [] rootNode)"
    and m_type: "ntype m = ''method_definition''"
    and m_name: "childForFieldName m ''name'' = Some nameNode"
    and cls_type: "ntype cls = ''class_declaration''"
    and cls_name: "childForFieldName cls ''name'' = Some classNameNode"
    and body_type: "ntype body = ''class_body''"
    and significant: "ntext nameNode \<noteq> ''anonymous'' \<or> 100 < length (ntext m)"
  shows "\<lparr>fn_name = ntext nameNode, fn_parent = Some (ntext classNameNode),
          fn_position = getPosition m, fn_code = ntext m\<rparr>
           \<in> set (sym_functions (extract_javascript rootNode))
         \<and> (\<exists>c \<in> set (sym_classes (extract_javascript rootNode)).
               cls_name c = ntext classNameNode \<and> cls_position c = getPosition cls
               \<and> (\<exists>mt \<in> set (cls_methods c).
                     m_name mt = ntext nameNode \<and> m_position mt = getPosition m
                     \<and> m_code mt = ntext m))"
proof
  let ?loc = "(body # cls # rest, m)"
  have name: "js_function_name ?loc = ntext nameNode"
    using m_type m_name by (simp add: js_function_name_def or_anonymous_def)
  have sig: "isSignificantFunction ?loc (ntext nameNode)"
    using m_type body_type significant by (simp add: isSignificantFunction_def parent_def)
  have par: "js_function_parent ?loc = Some (ntext classNameNode)"
    using m_type cls_type cls_name
    by (simp add: js_function_parent_def enclosing_name_def text_of_def)
  have "?loc \<in> set (filter (\<lambda>loc. isSignificantFunction loc (js_function_name loc))
          (descendantsOfType ([], rootNode)
             [''function_declaration'', ''method_definition'', ''arrow_function'', ''function'']))"
    using loc m_type name sig by (simp add: descendantsOfType_def)
  then have "js_function ?loc \<in> set (js_functions ([], rootNode))"
    unfolding js_functions_def by simp
  then show "\<lparr>fn_name = ntext nameNode, fn_parent = Some (ntext classNameNode),
          fn_position = getPosition m, fn_code = ntext m\<rparr>
           \<in> set (sym_functions (extract_javascript rootNode))"
    using name par by (simp add: js_function_def extract_javascript_def)
next
  let ?loc = "(body # cls # rest, m)"
  from grandparent_located [OF loc]
  have c: "(rest, cls) \<in> set (descendants [] rootNode)"
    and below: "?loc \<in> set (descendants rest cls)"
    by auto
  let ?mrec = "\<lparr>m_name = ntext nameNode, m_position = getPosition m,
                   m_isStatic = (text_of (childForFieldName m ''static'') = Some ''static''),
                   m_code = ntext m\<rparr>"
  let ?mrecs = "concat (map js_method (descendantsOfType (rest, cls) [''method_definition'']))"
  let ?c = "\<lparr>cls_name = ntext classNameNode, cls_position = getPosition cls,
              cls_methods = ?mrecs, cls_code = ntext cls\<rparr>"
  have "?loc \<in> set (descendantsOfType (rest, cls) [''method_definition''])"
    using below m_type by (simp add: descendantsOfType_def)
  moreover have "js_method ?loc = [?mrec]"
    using m_name by (simp add: js_method_def)
  ultimately have meth: "?mrec \<in> set ?mrecs"
    by force
  have "(rest, cls) \<in> set (descendantsOfType ([], rootNode) [''class_declaration''])"
    using c cls_type by (simp add: descendantsOfType_def)
  moreover have "js_class (rest, cls) = [?c]"
    using cls_name by (simp add: js_class_def)
  ultimately have "?c \<in> set (js_classes ([], rootNode))"
    unfolding js_classes_def by force
  then have "?c \<in> set (sym_classes (extract_javascript rootNode))"
    by (simp add: extract_javascript_def)
  moreover have "cls_name ?c = ntext classNameNode \<and> cls_position ?c = getPosition cls
               \<and> (\<exists>mt \<in> set (cls_methods ?c).
                     m_name mt = ntext nameNode \<and> m_position mt = getPosition m
                     \<and> m_code mt = ntext m)"
    using meth by (intro conjI bexI [of _ ?mrec]) simp_all
  ultimately show "\<exists>c \<in> set (sym_classes (extract_javascript rootNode)).
               cls_name c = ntext classNameNode \<and> cls_position c = getPosition cls
               \<and> (\<exists>mt \<in> set (cls_methods c).
                     m_name mt = ntext nameNode \<and> m_position mt = getPosition m
                     \<and> m_code mt = ntext m)"
    by blast
qed

lemma class_tree_located:
  "(class_body_node ''m'' # class_node ''m'' # [class_tree ''m''], method_node ''m'')
     \<in> set (descendants [] (class_tree ''m''))"
  by code_simp

lemma class_tree_facts:
  "ntype (method_node ''m'') = ''method_definition''"
  "childForFieldName (method_node ''m'') ''name''
     = Some (Node (Some ''name'') ''property_identifier'' ''m'' (0, 10) (0, 11) True [])"
  "ntype (class_node ''m'') = ''class_declaration''"
  "childForFieldName (class_node ''m'') ''name''
     = Some (Node (Some ''name'') ''identifier'' ''A'' (0, 6) (0, 7) True [])"
  "ntype (class_body_node ''m'') = ''class_body''"
  by code_simp+

lemma class_tree_values:
  "getPosition (method_node ''m'') = \<lparr>startLine = 1, startCol = 10, endLine = 1, endCol = 16\<rparr>"
  "ntext (method_node ''m'') = ''m() {}''"
  "getPosition (class_node ''m'') = \<lparr>startLine = 1, startCol = 0, endLine = 1, endCol = 18\<rparr>"
  by code_simp+

lemma class_method_recorded_twice_instance:
  "\<lparr>fn_name = ''m'', fn_parent = Some ''A'',
     fn_position = \<lparr>startLine = 1, startCol = 10, endLine = 1, endCol = 16\<rparr>,
     fn_code = ''m() {}''\<rparr>
       \<in> set (sym_functions (extract_javascript (class_tree ''m'')))
   \<and> (\<exists>c \<in> set (sym_classes (extract_javascript (class_tree ''m''))).
         cls_name c = ''A''
         \<and> cls_position c = \<lparr>startLine = 1, startCol = 0, endLine = 1, endCol = 18\<rparr>
         \<and> (\<exists>mt \<in> set (cls_methods c).
               m_name mt = ''m''
               \<and> m_position mt = \<lparr>startLine = 1, startCol = 10, endLine = 1, endCol = 16\<rparr>
               \<and> m_code mt = ''m() {}''))"
proof -
  have significant:
    "ntext (Node (Some ''name'') ''property_identifier'' ''m'' (0, 10) (0, 11) True []) \<noteq> ''anonymous''
     \<or> 100 < length (ntext (method_node ''m''))"
    by simp
  from class_method_recorded_twice
          [OF class_tree_located class_tree_facts(1) class_tree_facts(2) class_tree_facts(3)
              class_tree_facts(4) class_tree_facts(5) significant]
  show ?thesis
    unfolding class_tree_values by simp
qed

text \<open>
  Claim C10 at a method whose name is the word \<open>anonymous\<close>.  The significance filter
  uses that word as its mark of a function without a name, so the method of
  \<^verbatim>\<open>class A { anonymous() {} }\<close> is dropped from the functions although it has a name:
  it is a Method of the class \<open>A\<close> and is in no Function record, so it is recorded once,
  the summary line of the file counts 0 functions, and the file adds 0 to the functions
  stored for the run.  The method of \<^verbatim>\<open>class A { anonymouz() {} }\<close> is recorded twice
  and counted, as lemma \<open>class_method_recorded_twice\<close> shows in general.
\<close>

theorem method_named_anonymous_recorded_once:
  "sym_functions (extract_javascript (class_tree ''anonymous'')) = []
   \<and> map (\<lambda>c. (cls_name c, map m_name (cls_methods c)))
        (sym_classes (extract_javascript (class_tree ''anonymous''))) = [(''A'', [''anonymous''])]
   \<and> map (\<lambda>f. (fn_name f, fn_parent f))
        (sym_functions (extract_javascript (class_tree ''anonymouz''))) = [(''anonymouz'', Some ''A'')]
   \<and> map (\<lambda>c. (cls_name c, map m_name (cls_methods c)))
        (sym_classes (extract_javascript (class_tree ''anonymouz''))) = [(''A'', [''anonymouz''])]
   \<and> summary_line [] (extract_javascript (class_tree ''anonymous''))
       = box_last @ ''[Analyzed: 0 functions, 0 variables, 1 classes]'' @ [CHR 0x0A]
   \<and> summary_line [] (extract_javascript (class_tree ''anonymouz''))
       = box_last @ ''[Analyzed: 1 functions, 0 variables, 1 classes]'' @ [CHR 0x0A]
   \<and> map (\<lambda>(path, fs). (path, length fs))
        (cs_functions (store_symbols ''/p/a.js'' (extract_javascript (class_tree ''anonymous''))
           empty_code_symbols)) = [(''/p/a.js'', 0)]"
  by code_simp

section \<open>Positions\<close>

lemma js_functions_from_nodes:
  "fn \<in> set (js_functions ([], rootNode)) \<Longrightarrow>
     \<exists>loc \<in> set (descendants [] rootNode). fn = js_function loc"
  by (auto simp: js_functions_def descendantsOfType_def)

lemma py_functions_from_nodes:
  "fn \<in> set (py_functions ([], rootNode)) \<Longrightarrow>
     \<exists>loc \<in> set (descendants [] rootNode). fn = py_function loc"
  by (auto simp: py_functions_def descendantsOfType_def)

lemma slice_getPosition:
  "slice_position src (getPosition n) = slice_span src (nstart n) (nend n)"
  by (simp add: slice_position_def getPosition_def)

text \<open>
  Claim C7.  Let the tree keep the parser's contract for the source (the text of every
  node is the slice of the source at the node's span).  Then every Function record,
  JavaScript or Python, comes from a node of the tree: its code is the node's text, its
  lines are the node's rows plus one, its columns are the node's columns, and slicing the
  source at the record's position gives the record's code exactly.
\<close>

theorem function_position_round_trip:
  assumes "consistent src rootNode"
  shows "\<forall>fn \<in> set (sym_functions (extract_javascript rootNode))
                 \<union> set (sym_functions (extract_python rootNode)).
           slice_position src (fn_position fn) = fn_code fn
           \<and> (\<exists>loc \<in> set (descendants [] rootNode).
                 fn_code fn = ntext (snd loc)
                 \<and> startLine (fn_position fn) = fst (nstart (snd loc)) + 1
                 \<and> startCol (fn_position fn) = snd (nstart (snd loc))
                 \<and> endLine (fn_position fn) = fst (nend (snd loc)) + 1
                 \<and> endCol (fn_position fn) = snd (nend (snd loc)))"
proof
  fix fn
  assume "fn \<in> set (sym_functions (extract_javascript rootNode))
                 \<union> set (sym_functions (extract_python rootNode))"
  then have "fn \<in> set (js_functions ([], rootNode)) \<or> fn \<in> set (py_functions ([], rootNode))"
    by (simp add: extract_javascript_def extract_python_def)
  then obtain loc where loc: "loc \<in> set (descendants [] rootNode)"
    and fn: "fn_position fn = getPosition (snd loc)" "fn_code fn = ntext (snd loc)"
    using js_functions_from_nodes [of fn rootNode] py_functions_from_nodes [of fn rootNode]
    by (auto simp: js_function_def py_function_def)
  from assms loc have "ntext (snd loc) = slice_span src (nstart (snd loc)) (nend (snd loc))"
    by (simp add: consistent_def list_all_iff)
  then have "slice_position src (fn_position fn) = fn_code fn"
    using fn by (simp add: slice_getPosition)
  moreover have "fn_code fn = ntext (snd loc)
                 \<and> startLine (fn_position fn) = fst (nstart (snd loc)) + 1
                 \<and> startCol (fn_position fn) = snd (nstart (snd loc))
                 \<and> endLine (fn_position fn) = fst (nend (snd loc)) + 1
                 \<and> endCol (fn_position fn) = snd (nend (snd loc))"
    using fn by (simp add: getPosition_def)
  ultimately show "slice_position src (fn_position fn) = fn_code fn
           \<and> (\<exists>loc \<in> set (descendants [] rootNode).
                 fn_code fn = ntext (snd loc)
                 \<and> startLine (fn_position fn) = fst (nstart (snd loc)) + 1
                 \<and> startCol (fn_position fn) = snd (nstart (snd loc))
                 \<and> endLine (fn_position fn) = fst (nend (snd loc)) + 1
                 \<and> endCol (fn_position fn) = snd (nend (snd loc)))"
    using loc by blast
qed

lemma scenario_a_consistent: "consistent scenario_a_source scenario_a_tree"
  by code_simp

lemma scenario_a_functions:
  "sym_functions (extract_javascript scenario_a_tree) =
     [\<lparr>fn_name = ''foo'', fn_parent = None,
       fn_position = \<lparr>startLine = 1, startCol = 0, endLine = 1, endCol = 25\<rparr>,
       fn_code = ''function foo(){return 1;}''\<rparr>]"
  by code_simp

lemma two_line_consistent: "consistent two_line_source two_line_tree"
  by code_simp

lemma two_line_functions:
  "sym_functions (extract_python two_line_tree) =
     [\<lparr>fn_name = ''g'', fn_parent = None,
       fn_position = \<lparr>startLine = 2, startCol = 0, endLine = 2, endCol = 13\<rparr>,
       fn_code = ''def g(): pass''\<rparr>]"
  by code_simp

theorem function_position_round_trip_witness:
  "consistent scenario_a_source scenario_a_tree
   \<and> sym_functions (extract_javascript scenario_a_tree) =
     [\<lparr>fn_name = ''foo'', fn_parent = None,
       fn_position = \<lparr>startLine = 1, startCol = 0, endLine = 1, endCol = 25\<rparr>,
       fn_code = ''function foo(){return 1;}''\<rparr>]
   \<and> slice_position scenario_a_source \<lparr>startLine = 1, startCol = 0, endLine = 1, endCol = 25\<rparr>
       = ''function foo(){return 1;}''
   \<and> consistent two_line_source two_line_tree
   \<and> sym_functions (extract_python two_line_tree) =
     [\<lparr>fn_name = ''g'', fn_parent = None,
       fn_position = \<lparr>startLine = 2, startCol = 0, endLine = 2, endCol = 13\<rparr>,
       fn_code = ''def g(): pass''\<rparr>]
   \<and> slice_position two_line_source \<lparr>startLine = 2, startCol = 0, endLine = 2, endCol = 13\<rparr>
       = ''def g(): pass''"
  using function_position_round_trip [OF scenario_a_consistent]
    function_position_round_trip [OF two_line_consistent]
  by (simp add: scenario_a_consistent scenario_a_functions two_line_consistent two_line_functions)

section \<open>Facts about the tree walker\<close>

declare getDirectoryTree.simps [simp del] tree_listing.simps [simp del] visible_lines.simps [simp del]
declare walk_items.simps(2) [simp del] listing_items.simps(2) [simp del]
declare visible_items.simps(2) [simp del]

lemma walk_items_Cons:
  "walk_items cfg dirPath rules indent a cd (item # items) st =
     (if entry_name item = ''.gitignore'' \<or> startsWith (entry_name item) ''.''
      then walk_items cfg dirPath rules indent a cd items st
      else case shouldIgnore (engine cfg) (path_join dirPath (entry_name item)) (isDirectory item)
                  rules (rootPath cfg) of
             Inl e \<Rightarrow> (Inl e, st)
           | Inr True \<Rightarrow> walk_items cfg dirPath rules indent a cd items st
           | Inr False \<Rightarrow>
               (case visit_item cfg dirPath rules indent a cd (items = []) item st of
                  (Inl e, st') \<Rightarrow> (Inl e, st')
                | (Inr added, st') \<Rightarrow>
                    (case walk_items cfg dirPath rules indent a cd items st' of
                       (Inl e, st'') \<Rightarrow> (Inl e, st'')
                     | (Inr out, st'') \<Rightarrow>
                         (Inr (entry_line indent (items = []) item # added @ out), st''))))"
  by (cases item)
     (simp_all add: walk_items.simps(2) visit_item_def Let_def
        split: sum.splits bool.splits prod.splits)

lemma matches_pattern_accepted:
  assumes "str_includes pattern ''*'' \<longrightarrow>
             (case RegExp eng (''^'' @ replaceAll ''*'' ''.*''
                                       (replaceAll ''.'' [CHR 0x5C, CHR ''.''] pattern) @ ''$'') of
                Inl error \<Rightarrow> False | Inr test \<Rightarrow> True)"
  shows "\<exists>b. matches_pattern eng filePath pattern = Inr b"
  using assms by (auto simp: matches_pattern_def Let_def split: sum.splits)

lemma isSupportedFile_accepted:
  assumes "patterns_accepted eng customPatterns"
  shows "\<exists>b. isSupportedFile eng filePath customPatterns = Inr b"
proof (cases customPatterns)
  case None
  then show ?thesis by (simp add: isSupportedFile_def Let_def)
next
  case (Some ps)
  with assms have "\<forall>p \<in> set ps. \<exists>b. matches_pattern eng filePath p = Inr b"
    using matches_pattern_accepted [of _ eng filePath]
    by (simp add: patterns_accepted_def list_all_iff)
  then have "\<exists>b. some_pattern eng filePath ps = Inr b"
    using some_pattern_all_return [of ps eng filePath] by simp
  then show ?thesis using Some
    by (cases ps) (simp_all add: isSupportedFile_def Let_def)
qed

lemma analyze_file_returns:
  assumes "patterns_accepted (engine cfg) (filePatterns cfg)"
  shows "\<exists>added st'. analyze_file cfg itemPath childIndent a cd content st = (Inr added, st')"
  using isSupportedFile_accepted [OF assms, of itemPath]
  by (auto simp: analyze_file_def split: sum.splits bool.splits option.splits prod.splits)

lemma analyze_file_off:
  assumes "\<not> (a \<and> real cd \<le> maxDepth cfg)"
  shows "analyze_file cfg itemPath childIndent a cd content st = (Inr [], st)"
  using assms by (auto simp: analyze_file_def)

lemma some_regex_compiled:
  "some_regex eng ps subjects = Inr False \<Longrightarrow> p \<in> set ps \<Longrightarrow> \<exists>t. RegExp eng p = Inr t"
  by (induction ps) (auto split: sum.splits if_splits)

lemma some_regex_returns:
  "\<forall>p \<in> set ps. \<exists>t. RegExp eng p = Inr t \<Longrightarrow> \<exists>b. some_regex eng ps subjects = Inr b"
  by (induction ps) auto

lemma shouldIgnore_compiled:
  assumes "shouldIgnore eng itemPath isDir rules rootDir = Inr False" "p \<in> set rules"
  shows "\<exists>t. RegExp eng p = Inr t"
proof -
  from assms(2) have "rules \<noteq> []" by auto
  with assms(1) obtain subjects where "some_regex eng rules subjects = Inr False"
    by (auto simp: shouldIgnore_def Let_def)
  then show ?thesis using assms(2) by (rule some_regex_compiled)
qed

lemma shouldIgnore_returns:
  assumes "\<forall>p \<in> set rules. \<exists>t. RegExp eng p = Inr t"
  shows "\<exists>b. shouldIgnore eng itemPath isDir rules rootDir = Inr b"
  using some_regex_returns [OF assms]
  by (cases "rules = []") (auto simp: shouldIgnore_def Let_def)

lemma analyze_file_quiet:
  assumes "a \<longrightarrow> patterns_accepted (engine cfg) (filePatterns cfg)"
  shows "\<exists>added st'. analyze_file cfg itemPath childIndent a cd content st = (Inr added, st')"
proof (cases a)
  case True
  with assms show ?thesis using analyze_file_returns by blast
next
  case False
  then show ?thesis using analyze_file_off [of a cd cfg] by simp
qed

text \<open>
  The listing is complete where no pattern is rejected: whatever the depth, the depth
  limit and the analysis flag, the lines of the visible entries occur, in order, in the
  text the walk renders, provided analysis is off or the classifier cannot throw (no
  file patterns, or patterns the engine accepts).  An entry is visible only if every
  ignore rule of its directory is accepted by the engine, so no entry beside it throws.
\<close>

lemma visible_items_Cons:
  "visible_items eng rootDir dirPath rules indent (item # items) =
     (if entry_name item \<noteq> ''.gitignore'' \<and> \<not> startsWith (entry_name item) ''.''
         \<and> shouldIgnore eng (path_join dirPath (entry_name item)) (isDirectory item) rules rootDir
             = Inr False
      then entry_line indent (items = []) item
           # (case item of
                Dir name entries \<Rightarrow>
                  visible_lines eng rootDir (path_join dirPath (entry_name item)) rules
                    (child_indent indent (items = [])) entries
              | File name bytes content \<Rightarrow> [])
           @ visible_items eng rootDir dirPath rules indent items
      else visible_items eng rootDir dirPath rules indent items)"
  by (simp add: visible_items.simps(2))

lemma visible_items_none:
  assumes "\<not> (\<forall>p \<in> set rules. \<exists>t. RegExp eng p = Inr t)"
  shows "visible_items eng rootDir dirPath rules indent items = []"
proof (induction items)
  case Nil
  then show ?case by simp
next
  case (Cons item items)
  have "shouldIgnore eng (path_join dirPath (entry_name item)) (isDirectory item) rules rootDir
          \<noteq> Inr False"
    using assms shouldIgnore_compiled by blast
  then show ?case using Cons by (simp add: visible_items_Cons)
qed

lemma walk_items_visible_sub:
  assumes acc: "a \<longrightarrow> patterns_accepted (engine cfg) (filePatterns cfg)"
    and dirs: "\<And>name entries dirPath ign indent a' cd st.
        Dir name entries \<in> set all_items \<Longrightarrow> a' \<longrightarrow> a \<Longrightarrow>
          subseq (visible_lines (engine cfg) (rootPath cfg) dirPath ign indent entries)
                 (fst (getDirectoryTree cfg dirPath ign indent a' cd entries st))"
    and compiled: "\<forall>p \<in> set rules. \<exists>t. RegExp (engine cfg) p = Inr t"
  shows "set items \<subseteq> set all_items \<Longrightarrow>
         \<exists>out st'. walk_items cfg dirPath rules indent a cd items st = (Inr out, st')
            \<and> subseq (visible_items (engine cfg) (rootPath cfg) dirPath rules indent items) out"
proof (induction items arbitrary: st)
  case Nil
  then show ?case by simp
next
  case (Cons item items)
  have IH: "\<And>st. \<exists>out st'. walk_items cfg dirPath rules indent a cd items st = (Inr out, st')
            \<and> subseq (visible_items (engine cfg) (rootPath cfg) dirPath rules indent items) out"
    using Cons.IH Cons.prems by simp
  let ?sub = "case item of Dir name entries \<Rightarrow>
                  visible_lines (engine cfg) (rootPath cfg) (path_join dirPath (entry_name item)) rules
                    (child_indent indent (items = [])) entries
              | File name bytes content \<Rightarrow> []"
  obtain b where ign: "shouldIgnore (engine cfg) (path_join dirPath (entry_name item))
                         (isDirectory item) rules (rootPath cfg) = Inr b"
    using shouldIgnore_returns [OF compiled] by blast
  have visit: "\<exists>added st'. visit_item cfg dirPath rules indent a cd (items = []) item st = (Inr added, st')
                  \<and> subseq ?sub added"
  proof (cases item)
    case (File name bytes content)
    then show ?thesis
      using analyze_file_quiet [OF acc] by (simp add: visit_item_def)
  next
    case (Dir name entries)
    then have "Dir name entries \<in> set all_items"
      using Cons.prems by simp
    then have "subseq (visible_lines (engine cfg) (rootPath cfg) (path_join dirPath name) rules
                          (child_indent indent (items = [])) entries)
                 (fst (getDirectoryTree cfg (path_join dirPath name) rules
                          (child_indent indent (items = []))
                          (a \<and> real cd < maxDepth cfg) (cd + 1) entries st))"
      by (rule dirs) simp
    then show ?thesis using Dir
      by (auto simp: visit_item_def split: prod.splits)
  qed
  then obtain added st1 where v: "visit_item cfg dirPath rules indent a cd (items = []) item st = (Inr added, st1)"
    and sub: "subseq ?sub added"
    by blast
  obtain out0 st0 where w0: "walk_items cfg dirPath rules indent a cd items st = (Inr out0, st0)"
    and s0: "subseq (visible_items (engine cfg) (rootPath cfg) dirPath rules indent items) out0"
    using IH [of st] by blast
  obtain out1 st2 where w1: "walk_items cfg dirPath rules indent a cd items st1 = (Inr out1, st2)"
    and s1: "subseq (visible_items (engine cfg) (rootPath cfg) dirPath rules indent items) out1"
    using IH [of st1] by blast
  show ?case
    using ign v sub w0 s0 w1 s1
    by (cases b) (auto simp: walk_items_Cons visible_items_Cons list_emb_append_mono)
qed

lemma getDirectoryTree_visible_aux:
  "case item of
     File name bytes content \<Rightarrow> True
   | Dir name entries \<Rightarrow>
       (\<forall>dirPath ign indent a cd st.
          (a \<longrightarrow> patterns_accepted (engine cfg) (filePatterns cfg)) \<longrightarrow>
          subseq (visible_lines (engine cfg) (rootPath cfg) dirPath ign indent entries)
                 (fst (getDirectoryTree cfg dirPath ign indent a cd entries st)))"
proof (induction item)
  case (File name bytes content)
  then show ?case by simp
next
  case (Dir name entries)
  show ?case
  proof (simp, intro allI impI)
    fix dirPath ign indent a cd st
    assume acc: "a \<longrightarrow> patterns_accepted (engine cfg) (filePatterns cfg)"
    let ?rules = "defaultIgnorePatterns @ ign @ parseGitignore (read_gitignore entries)"
    have dirs: "\<And>name' entries' dirPath ign indent a' cd st.
        Dir name' entries' \<in> set entries \<Longrightarrow> a' \<longrightarrow> a \<Longrightarrow>
          subseq (visible_lines (engine cfg) (rootPath cfg) dirPath ign indent entries')
                 (fst (getDirectoryTree cfg dirPath ign indent a' cd entries' st))"
      using Dir.IH acc by force
    show "subseq (visible_lines (engine cfg) (rootPath cfg) dirPath ign indent entries)
                 (fst (getDirectoryTree cfg dirPath ign indent a cd entries st))"
    proof (cases "\<forall>p \<in> set ?rules. \<exists>t. RegExp (engine cfg) p = Inr t")
      case True
      have "\<exists>out st'. walk_items cfg dirPath ?rules indent a cd entries st = (Inr out, st')
            \<and> subseq (visible_items (engine cfg) (rootPath cfg) dirPath ?rules indent entries) out"
        by (rule walk_items_visible_sub [OF acc _ True subset_refl]) (rule dirs)
      then show ?thesis
        by (auto simp: getDirectoryTree.simps visible_lines.simps)
    next
      case False
      then show ?thesis
        using visible_items_none [of ?rules "engine cfg"] by (simp add: visible_lines.simps)
    qed
  qed
qed

lemma visible_entries_listed:
  assumes "analyzeJs \<longrightarrow> patterns_accepted (engine cfg) (filePatterns cfg)"
  shows "subseq (visible_lines (engine cfg) (rootPath cfg) dirPath ign indent entries)
                (fst (getDirectoryTree cfg dirPath ign indent analyzeJs cd entries st))"
  using getDirectoryTree_visible_aux [where item = "Dir [] entries" and cfg = cfg] assms by simp

text \<open>
  Analysis obeys the depth limit: a path that a walk adds to the analyzed files is the
  path of a file below the walked directory, analysis is enabled, and the depth of the
  walk plus the depth of the file below the directory is at most \<open>maxDepth\<close>.
\<close>

lemma set_add_cases: "x \<in> set (set_add y xs) \<Longrightarrow> x = y \<or> x \<in> set xs"
  by (auto simp: set_add_def split: if_splits)

lemma analyze_file_files:
  assumes "initialized st"
    and "analyze_file cfg itemPath childIndent a cd content st = (r, st')"
  shows "initialized st'
         \<and> (\<forall>p \<in> set (cs_files (codeSymbols st')).
               p \<in> set (cs_files (codeSymbols st))
               \<or> (a \<and> real cd \<le> maxDepth cfg \<and> p = itemPath))"
  using assms
  by (auto simp: analyze_file_def extractCodeSymbols_def extract_tried_def log_error_def
        store_symbols_def dest: set_add_cases
        split: if_splits sum.splits bool.splits option.splits prod.splits)

lemma files_below_Cons:
  "files_below dirPath (item # items) = files_of dirPath item @ files_below dirPath items"
  by (simp add: files_below_def)

lemma files_of_Dir:
  "(d, p) \<in> set (files_below (path_join dirPath name) entries)
     \<Longrightarrow> (Suc d, p) \<in> set (files_of dirPath (Dir name entries))"
  by (force simp: files_below_def)

lemma walk_items_depth_sub:
  assumes dirs: "\<And>name entries dirPath ign indent a cd st.
        Dir name entries \<in> set all_items \<Longrightarrow> initialized st \<Longrightarrow>
          initialized (snd (getDirectoryTree cfg dirPath ign indent a cd entries st))
          \<and> (\<forall>p \<in> set (cs_files (codeSymbols
                         (snd (getDirectoryTree cfg dirPath ign indent a cd entries st)))).
                p \<in> set (cs_files (codeSymbols st))
                \<or> (a \<and> (\<exists>d. (d, p) \<in> set (files_below dirPath entries)
                              \<and> real (cd + d) \<le> maxDepth cfg)))"
  shows "set items \<subseteq> set all_items \<Longrightarrow> initialized st \<Longrightarrow>
         initialized (snd (walk_items cfg dirPath rules indent a cd items st))
         \<and> (\<forall>p \<in> set (cs_files (codeSymbols (snd (walk_items cfg dirPath rules indent a cd items st)))).
               p \<in> set (cs_files (codeSymbols st))
               \<or> (a \<and> (\<exists>d. (d, p) \<in> set (files_below dirPath items)
                             \<and> real (cd + d) \<le> maxDepth cfg)))"
proof (induction items arbitrary: st)
  case Nil
  then show ?case by simp
next
  case (Cons item items)
  let ?new = "\<lambda>its p. a \<and> (\<exists>d. (d, p) \<in> set (files_below dirPath its) \<and> real (cd + d) \<le> maxDepth cfg)"
  have IH: "\<And>st. initialized st \<Longrightarrow>
         initialized (snd (walk_items cfg dirPath rules indent a cd items st))
         \<and> (\<forall>p \<in> set (cs_files (codeSymbols (snd (walk_items cfg dirPath rules indent a cd items st)))).
               p \<in> set (cs_files (codeSymbols st)) \<or> ?new items p)"
    using Cons.IH Cons.prems by simp
  have mono: "?new items p \<Longrightarrow> ?new (item # items) p" for p
    by (auto simp: files_below_Cons)
  obtain r st1 where v: "visit_item cfg dirPath rules indent a cd (items = []) item st = (r, st1)"
    by (cases "visit_item cfg dirPath rules indent a cd (items = []) item st")
  have visit: "initialized st1
      \<and> (\<forall>p \<in> set (cs_files (codeSymbols st1)).
            p \<in> set (cs_files (codeSymbols st)) \<or> ?new (item # items) p)"
  proof (cases item)
    case (File name bytes content)
    with v have "analyze_file cfg (path_join dirPath name) (child_indent indent (items = []))
                   a cd content st = (r, st1)"
      by (simp add: visit_item_def)
    from analyze_file_files [OF Cons.prems(2) this]
    have init: "initialized st1"
      and files: "\<And>p. p \<in> set (cs_files (codeSymbols st1)) \<Longrightarrow>
               p \<in> set (cs_files (codeSymbols st))
               \<or> (a \<and> real cd \<le> maxDepth cfg \<and> p = path_join dirPath name)"
      by auto
    have here: "(0, path_join dirPath name) \<in> set (files_below dirPath (item # items))"
      using File by (simp add: files_below_Cons)
    show ?thesis
    proof (intro conjI ballI)
      show "initialized st1" by (rule init)
    next
      fix p
      assume "p \<in> set (cs_files (codeSymbols st1))"
      from files [OF this] here
      show "p \<in> set (cs_files (codeSymbols st)) \<or> ?new (item # items) p"
        by (metis add_0_right of_nat_0 add.right_neutral)
    qed
  next
    case (Dir name entries)
    then have "Dir name entries \<in> set all_items"
      using Cons.prems by simp
    from dirs [OF this Cons.prems(2), of "path_join dirPath name" rules
                 "child_indent indent (items = [])" "a \<and> real cd < maxDepth cfg" "cd + 1"]
    have sub: "initialized st1
      \<and> (\<forall>p \<in> set (cs_files (codeSymbols st1)).
            p \<in> set (cs_files (codeSymbols st))
            \<or> (a \<and> (\<exists>d. (d, p) \<in> set (files_below (path_join dirPath name) entries)
                          \<and> real (cd + 1 + d) \<le> maxDepth cfg)))"
      using v Dir by (auto simp: visit_item_def split: prod.splits)
    show ?thesis
    proof (intro conjI ballI)
      show "initialized st1" using sub by simp
    next
      fix p
      assume "p \<in> set (cs_files (codeSymbols st1))"
      with sub consider "p \<in> set (cs_files (codeSymbols st))"
        | d where "a" "(d, p) \<in> set (files_below (path_join dirPath name) entries)"
            "real (cd + 1 + d) \<le> maxDepth cfg"
        by blast
      then show "p \<in> set (cs_files (codeSymbols st)) \<or> ?new (item # items) p"
      proof cases
        case 1
        then show ?thesis by simp
      next
        case 2
        from files_of_Dir [OF 2(2)] have "(Suc d, p) \<in> set (files_below dirPath (item # items))"
          using Dir by (simp add: files_below_Cons)
        moreover have "real (cd + Suc d) \<le> maxDepth cfg"
          using 2(3) by simp
        ultimately show ?thesis using 2(1) by blast
      qed
    qed
  qed
  have rest: "initialized (snd (walk_items cfg dirPath rules indent a cd items s))
         \<and> (\<forall>p \<in> set (cs_files (codeSymbols (snd (walk_items cfg dirPath rules indent a cd items s)))).
               p \<in> set (cs_files (codeSymbols st)) \<or> ?new (item # items) p)"
    if "s = st \<or> s = st1" for s
  proof -
    have init: "initialized s" using that Cons.prems(2) visit by auto
    have old: "p \<in> set (cs_files (codeSymbols s)) \<Longrightarrow>
                 p \<in> set (cs_files (codeSymbols st)) \<or> ?new (item # items) p" for p
      using that visit by auto
    show ?thesis
      using IH [OF init] old mono by blast
  qed
  show ?case
    using rest [of st] rest [of st1] v visit Cons.prems(2)
    by (auto simp: walk_items_Cons split: sum.splits bool.splits prod.splits)
qed

lemma getDirectoryTree_depth_aux:
  "case item of
     File name bytes content \<Rightarrow> True
   | Dir name entries \<Rightarrow>
       (\<forall>dirPath ign indent a cd st.
          initialized st \<longrightarrow>
          initialized (snd (getDirectoryTree cfg dirPath ign indent a cd entries st))
          \<and> (\<forall>p \<in> set (cs_files (codeSymbols
                         (snd (getDirectoryTree cfg dirPath ign indent a cd entries st)))).
                p \<in> set (cs_files (codeSymbols st))
                \<or> (a \<and> (\<exists>d. (d, p) \<in> set (files_below dirPath entries)
                              \<and> real (cd + d) \<le> maxDepth cfg))))"
proof (induction item)
  case (File name bytes content)
  then show ?case by simp
next
  case (Dir name entries)
  have dirs: "\<And>name' entries' dirPath ign indent a cd st.
        Dir name' entries' \<in> set entries \<Longrightarrow> initialized st \<Longrightarrow>
          initialized (snd (getDirectoryTree cfg dirPath ign indent a cd entries' st))
          \<and> (\<forall>p \<in> set (cs_files (codeSymbols
                         (snd (getDirectoryTree cfg dirPath ign indent a cd entries' st)))).
                p \<in> set (cs_files (codeSymbols st))
                \<or> (a \<and> (\<exists>d. (d, p) \<in> set (files_below dirPath entries')
                              \<and> real (cd + d) \<le> maxDepth cfg)))"
    using Dir.IH by force
  show ?case
    unfolding fsnode.case
  proof (intro allI impI)
    fix dirPath ign indent a cd and st :: js_state
    assume init: "initialized st"
    let ?rules = "defaultIgnorePatterns @ ign @ parseGitignore (read_gitignore entries)"
    have "initialized (snd (walk_items cfg dirPath ?rules indent a cd entries st))
         \<and> (\<forall>p \<in> set (cs_files (codeSymbols (snd (walk_items cfg dirPath ?rules indent a cd entries st)))).
               p \<in> set (cs_files (codeSymbols st))
               \<or> (a \<and> (\<exists>d. (d, p) \<in> set (files_below dirPath entries)
                             \<and> real (cd + d) \<le> maxDepth cfg)))"
      by (rule walk_items_depth_sub [OF _ subset_refl init]) (rule dirs)
    then show "initialized (snd (getDirectoryTree cfg dirPath ign indent a cd entries st))
          \<and> (\<forall>p \<in> set (cs_files (codeSymbols
                         (snd (getDirectoryTree cfg dirPath ign indent a cd entries st)))).
                p \<in> set (cs_files (codeSymbols st))
                \<or> (a \<and> (\<exists>d. (d, p) \<in> set (files_below dirPath entries)
                              \<and> real (cd + d) \<le> maxDepth cfg)))"
      by (auto simp: getDirectoryTree.simps log_error_def split: sum.splits prod.splits)
  qed
qed

lemma analysis_within_depth:
  assumes "initialized st"
    and "p \<in> set (cs_files (codeSymbols
                    (snd (getDirectoryTree cfg dirPath ign indent analyzeJs cd entries st))))"
    and "p \<notin> set (cs_files (codeSymbols st))"
  shows "analyzeJs \<and> (\<exists>d. (d, p) \<in> set (files_below dirPath entries)
                          \<and> real (cd + d) \<le> maxDepth cfg)"
proof -
  have "initialized st \<longrightarrow>
          initialized (snd (getDirectoryTree cfg dirPath ign indent analyzeJs cd entries st))
          \<and> (\<forall>p \<in> set (cs_files (codeSymbols
                         (snd (getDirectoryTree cfg dirPath ign indent analyzeJs cd entries st)))).
                p \<in> set (cs_files (codeSymbols st))
                \<or> (analyzeJs \<and> (\<exists>d. (d, p) \<in> set (files_below dirPath entries)
                              \<and> real (cd + d) \<le> maxDepth cfg)))"
    using getDirectoryTree_depth_aux [where item = "Dir [] entries" and cfg = cfg] by simp
  with assms show ?thesis by blast
qed

text \<open>
  Where analysis is off or \<open>currentDepth \<le> maxDepth\<close> fails, the walk of a directory
  renders exactly the listing and leaves the stored symbols untouched.
\<close>

lemma walk_items_off_sub:
  assumes off: "\<not> (a \<and> real cd \<le> maxDepth cfg)"
    and dirs: "\<And>name entries dirPath ign indent cd' st.
        Dir name entries \<in> set all_items \<Longrightarrow>
          fst (getDirectoryTree cfg dirPath ign indent False cd' entries st)
            = tree_listing (engine cfg) (rootPath cfg) dirPath ign indent entries
          \<and> codeSymbols (snd (getDirectoryTree cfg dirPath ign indent False cd' entries st))
            = codeSymbols st"
  shows "set items \<subseteq> set all_items \<Longrightarrow>
         fst (walk_items cfg dirPath rules indent a cd items st)
           = listing_items (engine cfg) (rootPath cfg) dirPath rules indent items
         \<and> codeSymbols (snd (walk_items cfg dirPath rules indent a cd items st)) = codeSymbols st"
proof (induction items arbitrary: st)
  case Nil
  then show ?case by simp
next
  case (Cons item items)
  have IH: "\<And>st. fst (walk_items cfg dirPath rules indent a cd items st)
           = listing_items (engine cfg) (rootPath cfg) dirPath rules indent items
         \<and> codeSymbols (snd (walk_items cfg dirPath rules indent a cd items st)) = codeSymbols st"
    using Cons.IH Cons.prems by simp
  let ?sub = "case item of Dir name entries \<Rightarrow>
                  tree_listing (engine cfg) (rootPath cfg) (path_join dirPath (entry_name item)) rules
                    (child_indent indent (items = [])) entries
              | File name bytes content \<Rightarrow> []"
  have flag: "(a \<and> real cd < maxDepth cfg) = False"
    using off by auto
  have visit: "\<exists>st'. visit_item cfg dirPath rules indent a cd (items = []) item st = (Inr ?sub, st')
                  \<and> codeSymbols st' = codeSymbols st"
  proof (cases item)
    case (File name bytes content)
    then show ?thesis
      using analyze_file_off [OF off] by (simp add: visit_item_def)
  next
    case (Dir name entries)
    then have "Dir name entries \<in> set all_items"
      using Cons.prems by simp
    from dirs [OF this, of "path_join dirPath name" rules "child_indent indent (items = [])" "cd + 1" st]
    show ?thesis using Dir
      by (auto simp: visit_item_def flag split: prod.splits)
  qed
  then obtain st' where v: "visit_item cfg dirPath rules indent a cd (items = []) item st = (Inr ?sub, st')"
    and same: "codeSymbols st' = codeSymbols st"
    by blast
  show ?case
    using IH [of st] IH [of st'] v same
    by (auto simp: walk_items_Cons listing_items.simps(2) prod_eq_iff
          split: sum.splits bool.splits prod.splits)
qed

lemma getDirectoryTree_off_aux:
  "case item of
     File name bytes content \<Rightarrow> True
   | Dir name entries \<Rightarrow>
       (\<forall>dirPath ign indent a cd st.
          \<not> (a \<and> real cd \<le> maxDepth cfg) \<longrightarrow>
            fst (getDirectoryTree cfg dirPath ign indent a cd entries st)
              = tree_listing (engine cfg) (rootPath cfg) dirPath ign indent entries
            \<and> codeSymbols (snd (getDirectoryTree cfg dirPath ign indent a cd entries st))
              = codeSymbols st)"
proof (induction item)
  case (File name bytes content)
  then show ?case by simp
next
  case (Dir name entries)
  have dirs: "\<And>name' entries' dirPath ign indent cd' st.
        Dir name' entries' \<in> set entries \<Longrightarrow>
          fst (getDirectoryTree cfg dirPath ign indent False cd' entries' st)
            = tree_listing (engine cfg) (rootPath cfg) dirPath ign indent entries'
          \<and> codeSymbols (snd (getDirectoryTree cfg dirPath ign indent False cd' entries' st))
            = codeSymbols st"
    using Dir.IH by force
  show ?case
  proof (simp, intro allI impI)
    fix dirPath ign indent a cd st
    assume "a \<longrightarrow> \<not> real cd \<le> maxDepth cfg"
    then have off: "\<not> (a \<and> real cd \<le> maxDepth cfg)" by simp
    let ?rules = "defaultIgnorePatterns @ ign @ parseGitignore (read_gitignore entries)"
    have "fst (walk_items cfg dirPath ?rules indent a cd entries st)
           = listing_items (engine cfg) (rootPath cfg) dirPath ?rules indent entries
         \<and> codeSymbols (snd (walk_items cfg dirPath ?rules indent a cd entries st)) = codeSymbols st"
      by (rule walk_items_off_sub [OF off _ subset_refl]) (rule dirs)
    then show "fst (getDirectoryTree cfg dirPath ign indent a cd entries st)
              = tree_listing (engine cfg) (rootPath cfg) dirPath ign indent entries
            \<and> codeSymbols (snd (getDirectoryTree cfg dirPath ign indent a cd entries st))
              = codeSymbols st"
      by (auto simp: getDirectoryTree.simps tree_listing.simps log_error_def prod_eq_iff
            split: sum.splits prod.splits)
  qed
qed

lemma getDirectoryTree_off:
  assumes "\<not> (a \<and> real cd \<le> maxDepth cfg)"
  shows "fst (getDirectoryTree cfg dirPath ign indent a cd entries st)
              = tree_listing (engine cfg) (rootPath cfg) dirPath ign indent entries
            \<and> codeSymbols (snd (getDirectoryTree cfg dirPath ign indent a cd entries st))
              = codeSymbols st"
  using getDirectoryTree_off_aux [where item = "Dir [] entries" and cfg = cfg] assms by simp

text \<open>
  A subdirectory is always entered, with analysis enabled under the strict test
  \<open>currentDepth < maxDepth\<close> and with the depth increased by one.
\<close>

lemma subdirectory_always_entered:
  "visit_item cfg dirPath rules indent analyzeJs cd isLast (Dir name entries) st
     = (Inr (fst (getDirectoryTree cfg (path_join dirPath name) rules (child_indent indent isLast)
                    (analyzeJs \<and> real cd < maxDepth cfg) (cd + 1) entries st)),
        snd (getDirectoryTree cfg (path_join dirPath name) rules (child_indent indent isLast)
                    (analyzeJs \<and> real cd < maxDepth cfg) (cd + 1) entries st))"
  by (simp add: visit_item_def split: prod.splits)

text \<open>
  Scenario E: with \<open>maxDepth = 0\<close> the file \<open>a.js\<close> gets its summary line,
  \<open>sub/b.js\<close> is listed without one, and only \<open>/p/a.js\<close> is stored; with
  \<open>maxDepth = 1\<close> both files are analyzed.
\<close>

lemma scenario_e_run:
  "getDirectoryTree_top (scenario_e_cfg 0) True (Some scenario_e_entries) ready_state =
     ([box_item @ ''a.js (1 KB)'' @ [CHR 0x0A],
       box_bar @ box_last @ ''[Analyzed: 0 functions, 1 variables, 0 classes]'' @ [CHR 0x0A],
       box_last @ ''sub/'' @ [CHR 0x0A],
       ''    '' @ box_last @ ''b.js (1 KB)'' @ [CHR 0x0A]],
      ready_state\<lparr>codeSymbols :=
        store_symbols ''/p/a.js'' (extract_javascript scenario_b_tree) empty_code_symbols\<rparr>)"
  by code_simp


lemma scenario_e_files:
  "files_below ''/p'' scenario_e_entries = [(0, ''/p/a.js''), (1, ''/p/sub/b.js'')]"
  "cs_files (codeSymbols (snd (getDirectoryTree_top (scenario_e_cfg 0) True
      (Some scenario_e_entries) ready_state))) = [''/p/a.js'']"
  "cs_files (codeSymbols (snd (getDirectoryTree_top (scenario_e_cfg 1) True
      (Some scenario_e_entries) ready_state))) = [''/p/a.js'', ''/p/sub/b.js'']"
  by code_simp+

text \<open>
  Claim C2 where a pattern is rejected by the regular-expression engine.  The depth
  half of the claim holds (lemma \<open>analysis_within_depth\<close>), and so does the listing half
  as long as every pattern compiles (lemma \<open>visible_entries_listed\<close>).  But the ignore
  compiler escapes dots and slashes only, and the classifier dots only, so a \<open>+\<close> in a
  rule or in a file pattern reaches the engine as a quantifier:

  \<^item> with the ignore file \<open>c++\<close> in the root, the file \<open>z.txt\<close>, which is neither
    hidden nor matched by any rule, is not in the text: the whole listing of the
    directory is one error note, with analysis off and whatever \<open>maxDepth\<close> is;
    without the ignore file, \<open>z.txt\<close> is listed;

  \<^item> with the file pattern \<open>*.c++\<close>, the file \<open>sub/b.js\<close> is listed when
    \<open>maxDepth = 0\<close> and replaced by an error note when \<open>maxDepth = 1\<close>: the rendered
    text depends on \<open>maxDepth\<close>.
\<close>

theorem listing_lost_when_pattern_rejected:
  "fst (getDirectoryTree_top (scenario_e_cfg 5) False (Some plus_rule_entries) ready_state)
     = [''Error: Invalid regular expression: /(^|.*/|^/)c++($|/.*)/: Nothing to repeat''
        @ [CHR 0x0A]]
   \<and> fst (getDirectoryTree_top (scenario_e_cfg 0) True (Some plus_rule_entries) ready_state)
     = [''Error: Invalid regular expression: /(^|.*/|^/)c++($|/.*)/: Nothing to repeat''
        @ [CHR 0x0A]]
   \<and> fst (getDirectoryTree_top (scenario_e_cfg 5) False
            (Some [File ''z.txt'' 5 (Inr ''hello'')]) ready_state)
     = [box_last @ ''z.txt (1 KB)'' @ [CHR 0x0A]]
   \<and> fst (getDirectoryTree_top (pattern_cfg 0) True (Some sub_only_entries) ready_state)
     = [box_last @ ''sub/'' @ [CHR 0x0A],
        ''    '' @ box_last @ ''b.js (1 KB)'' @ [CHR 0x0A]]
   \<and> fst (getDirectoryTree_top (pattern_cfg 1) True (Some sub_only_entries) ready_state)
     = [box_last @ ''sub/'' @ [CHR 0x0A],
        ''    Error: Invalid regular expression: /^.*'' @ [CHR 0x5C]
          @ ''.c++$/: Nothing to repeat'' @ [CHR 0x0A]]"
  by code_simp

section \<open>The ignore-pattern compiler on literal names\<close>

lemma replaceAll_absent:
  "\<not> str_includes s lit \<Longrightarrow> replaceAll lit rep s = s"
  by (induction s) auto

lemma str_includes_hd:
  "str_includes s lit \<Longrightarrow> lit \<noteq> [] \<Longrightarrow> hd lit \<in> set s"
proof (induction s)
  case Nil
  then show ?case by simp
next
  case (Cons c cs)
  then show ?case
    by (cases lit) (auto simp: startsWith_def)
qed

lemma replaceAll_dot: "replaceAll ''.'' [CHR 0x5C, CHR ''.''] s = escape_dots s"
  by (induction s) (auto simp: escape_dots_def startsWith_def)

lemma set_escape_dots: "set (escape_dots s) \<subseteq> set s \<union> {CHR 0x5C}"
  by (induction s) (auto simp: escape_dots_def)

lemma startsWith_escape_dots:
  "startsWith (escape_dots s) t \<Longrightarrow> CHR 0x5C \<notin> set t \<Longrightarrow> startsWith s t"
proof (induction t arbitrary: s)
  case Nil
  then show ?case by (simp add: startsWith_def)
next
  case (Cons x xs)
  show ?case
  proof (cases s)
    case Nil
    with Cons.prems show ?thesis by (simp add: startsWith_def escape_dots_def)
  next
    case (Cons c cs)
    show ?thesis
    proof (cases "c = CHR ''.''")
      case True
      with Cons.prems \<open>s = c # cs\<close> show ?thesis
        by (simp add: startsWith_def escape_dots_def)
    next
      case False
      with Cons.prems \<open>s = c # cs\<close> have "x = c" "startsWith (escape_dots cs) xs"
        by (simp_all add: startsWith_def escape_dots_def)
      with Cons.IH [of cs] Cons.prems(2) \<open>s = c # cs\<close> show ?thesis
        by (simp add: startsWith_def)
    qed
  qed
qed

lemma str_includes_escape_dots:
  "str_includes (escape_dots s) t \<Longrightarrow> CHR 0x5C \<notin> set t \<Longrightarrow> CHR ''.'' \<notin> set t \<Longrightarrow> t \<noteq> []
     \<Longrightarrow> str_includes s t"
proof (induction s)
  case Nil
  then show ?case by (simp add: escape_dots_def)
next
  case (Cons c cs)
  show ?case
  proof (cases "c = CHR ''.''")
    case True
    have no1: "\<not> startsWith (CHR 0x5C # CHR ''.'' # escape_dots cs) t"
      using Cons.prems(2,4) by (cases t) (auto simp: startsWith_def)
    have no2: "\<not> startsWith (CHR ''.'' # escape_dots cs) t"
      using Cons.prems(3,4) by (cases t) (auto simp: startsWith_def)
    from Cons.prems(1) True no1 no2 have "str_includes (escape_dots cs) t"
      by (simp add: escape_dots_def)
    with Cons.IH Cons.prems show ?thesis by simp
  next
    case False
    with Cons.prems(1) have "startsWith (escape_dots (c # cs)) t \<or> str_includes (escape_dots cs) t"
      by (simp add: escape_dots_def)
    then show ?thesis
      using startsWith_escape_dots [of "c # cs" t] Cons.IH Cons.prems by auto
  qed
qed


lemma literal_char_facts:
  assumes "literal_char c"
  shows "c \<noteq> CHR 0x5C" "c \<noteq> CHR ''*''" "c \<noteq> CHR ''?''" "c \<noteq> CHR ''/''" "c \<noteq> CHR 0x0A"
  using assms by (auto simp: literal_char_def syntax_chars_def)

lemma literal_name_facts:
  assumes "literal_name n"
  shows "CHR ''*'' \<notin> set n" "CHR ''?'' \<notin> set n" "CHR ''/'' \<notin> set n" "CHR 0x5C \<notin> set n"
    "CHR 0x0A \<notin> set n"
proof -
  from assms have all: "\<And>c. c \<in> set n \<Longrightarrow> literal_char c"
    by (simp add: literal_name_def list_all_iff)
  show "CHR ''*'' \<notin> set n" using all literal_char_facts(2) by blast
  show "CHR ''?'' \<notin> set n" using all literal_char_facts(3) by blast
  show "CHR ''/'' \<notin> set n" using all literal_char_facts(4) by blast
  show "CHR 0x5C \<notin> set n" using all literal_char_facts(1) by blast
  show "CHR 0x0A \<notin> set n" using all literal_char_facts(5) by blast
qed

lemma not_included_if_absent:
  "lit \<noteq> [] \<Longrightarrow> hd lit \<notin> set s \<Longrightarrow> \<not> str_includes s lit"
  using str_includes_hd by blast

lemma strip_literal_line:
  assumes "literal_line n l"
  shows "rev (dropWhile is_sep (rev l)) = n"
proof -
  from assms have n: "n \<noteq> []" "CHR ''/'' \<notin> set n"
    using literal_name_facts by (auto simp: literal_line_def literal_name_def)
  have "last n \<in> set n"
    using n(1) by (rule last_in_set)
  then have "\<not> is_sep (last n)"
    using n(2) by (auto simp: is_sep_def)
  then have keep: "dropWhile is_sep (rev n) = rev n"
    using n(1) by (cases "rev n") (auto simp: last_rev hd_rev)
  from assms consider "l = n" | "l = n @ ''/''"
    by (auto simp: literal_line_def)
  then show ?thesis
    by cases (simp_all add: keep is_sep_def)
qed

lemma gitignore_pattern_literal:
  assumes line: "literal_line n l" and other: "n \<noteq> ''node_modules''"
  shows "gitignore_pattern l = ''(^|.*/|^/)'' @ escape_dots n @ ''($|/.*)''"
proof -
  from line have name: "literal_name n"
    by (simp add: literal_line_def)
  note facts = literal_name_facts [OF name]
  have n: "n \<noteq> []"
    using name by (simp add: literal_name_def)
  have l1: "l \<noteq> ''node_modules''"
    using line other facts(3) by (auto simp: literal_line_def)
  have l2: "l \<noteq> ''node_modules/''"
    using line other facts(3) by (auto simp: literal_line_def)
  have lead: "\<not> startsWith n ''/''"
    using facts(3) n by (cases n) (auto simp: startsWith_def)
  have esc: "set (escape_dots n) \<subseteq> set n \<union> {CHR 0x5C}"
    by (rule set_escape_dots)
  have a1: "\<not> str_includes (escape_dots n) ''**''"
    using esc facts(1) by (intro not_included_if_absent) auto
  have a2: "\<not> str_includes (escape_dots n) ''*''"
    using esc facts(1) by (intro not_included_if_absent) auto
  have a3: "\<not> str_includes (escape_dots n) ''__DOUBLE_STAR__''"
    using str_includes_escape_dots [of n "''__DOUBLE_STAR__''"] name
    by (auto simp: literal_name_def)
  have a4: "\<not> str_includes (escape_dots n) ''?''"
    using esc facts(2) by (intro not_included_if_absent) auto
  have a5: "\<not> str_includes (escape_dots n) ''/''"
    using esc facts(3) by (intro not_included_if_absent) auto
  show ?thesis
    unfolding gitignore_pattern_def Let_def strip_literal_line [OF line]
    using l1 l2 lead
    by (simp add: replaceAll_dot replaceAll_absent a1 a2 a3 a4 a5)
qed


lemma rx_step_literal:
  assumes "c \<notin> set syntax_chars"
  shows "rx_step (PS Normal st q) c = PS Normal (push_atom (Chr c) st) QAtom"
  using assms by (simp add: syntax_chars_def)

lemma rx_steps_literal:
  "list_all literal_char n \<Longrightarrow>
     foldl rx_step (PS Normal ((alts, cur) # fs) q) (escape_dots n)
       = PS Normal ((alts, cur @ map Chr n) # fs) (if n = [] then q else QAtom)"
proof (induction n arbitrary: cur q)
  case Nil
  then show ?case by (simp add: escape_dots_def)
next
  case (Cons c cs)
  then have rest: "list_all literal_char cs" and c: "literal_char c"
    by simp_all
  have step: "foldl rx_step (PS Normal ((alts, cur) # fs) q) (escape_dots [c])
                = PS Normal ((alts, cur @ [Chr c]) # fs) QAtom"
  proof (cases "c = CHR ''.''")
    case True
    then show ?thesis by (simp add: escape_dots_def syntax_chars_def)
  next
    case False
    with c have "c \<notin> set syntax_chars" by (simp add: literal_char_def)
    then have "rx_step (PS Normal ((alts, cur) # fs) q) c
                 = PS Normal (push_atom (Chr c) ((alts, cur) # fs)) QAtom"
      by (rule rx_step_literal)
    moreover have "escape_dots [c] = [c]"
      using False by (simp add: escape_dots_def)
    ultimately show ?thesis by (simp del: rx_step.simps)
  qed
  have "escape_dots (c # cs) = escape_dots [c] @ escape_dots cs"
    by (simp add: escape_dots_def)
  then show ?case
    using Cons.IH [OF rest, of "cur @ [Chr c]" QAtom] step by simp
qed

lemma rx_steps_prefix:
  "foldl rx_step (PS Normal [([], [])] QNone) ''(^|.*/|^/)'' = PS Normal [([], [prefix_regex])] QAtom"
  by (simp add: prefix_regex_def)

lemma rx_steps_suffix:
  "foldl rx_step (PS Normal [([], cur)] q) ''($|/.*)'' = PS Normal [([], cur @ [suffix_regex])] QAtom"
  by (simp add: suffix_regex_def)

lemma parse_literal:
  assumes "list_all literal_char n"
  shows "rx_parse (''(^|.*/|^/)'' @ escape_dots n @ ''($|/.*)'')
           = Parsed (seq_list (prefix_regex # map Chr n @ [suffix_regex]))"
proof -
  have "foldl rx_step (PS Normal [([], [])] QNone) (''(^|.*/|^/)'' @ escape_dots n @ ''($|/.*)'')
          = foldl rx_step (foldl rx_step (foldl rx_step (PS Normal [([], [])] QNone) ''(^|.*/|^/)'')
              (escape_dots n)) ''($|/.*)''"
    by (simp only: foldl_append)
  also have "\<dots> = PS Normal [([], ([prefix_regex] @ map Chr n) @ [suffix_regex])] QAtom"
    unfolding rx_steps_prefix rx_steps_literal [OF assms] rx_steps_suffix ..
  finally show ?thesis
    by (simp add: rx_parse_def)
qed

lemma seq_list_Cons: "rs \<noteq> [] \<Longrightarrow> seq_list (r # rs) = Seq r (seq_list rs)"
  by (cases rs) simp_all

lemma run_literal:
  "\<exists>b'. (b', []) \<in> set (rx_run (seq_list (map Chr n @ [suffix_regex])) (b, n))"
proof (induction n arbitrary: b)
  case Nil
  then show ?case by (auto simp: suffix_regex_def)
next
  case (Cons c cs)
  have "seq_list (map Chr (c # cs) @ [suffix_regex])
          = Seq (Chr c) (seq_list (map Chr cs @ [suffix_regex]))"
    by (simp add: seq_list_Cons)
  then show ?case
    using Cons.IH [of False] by simp
qed

lemma in_set_nonempty: "x \<in> set xs \<Longrightarrow> xs \<noteq> []"
  by (cases xs) simp_all

lemma test_literal:
  assumes "n \<noteq> []"
  shows "rx_test (seq_list (prefix_regex # map Chr n @ [suffix_regex])) n"
proof -
  let ?rest = "seq_list (map Chr n @ [suffix_regex])"
  have seq: "seq_list (prefix_regex # map Chr n @ [suffix_regex]) = Seq prefix_regex ?rest"
    by (simp add: seq_list_Cons)
  have "(True, n) \<in> set (rx_run prefix_regex (True, n))"
    by (simp add: prefix_regex_def)
  moreover obtain b' where "(b', []) \<in> set (rx_run ?rest (True, n))"
    using run_literal by blast
  ultimately have "(b', []) \<in> set (rx_run (Seq prefix_regex ?rest) (True, n))"
    by (auto intro!: bexI [of _ "(True, n)"])
  then have "rx_run (Seq prefix_regex ?rest) (True, n) \<noteq> []"
    by (rule in_set_nonempty)
  then show ?thesis
    using assms unfolding rx_test_def seq by (cases n) simp_all
qed

lemma node_modules_pattern:
  "RegExp eng ''^node_modules($|/)'' = Inr (rx_test (seq_list
     (Bol # map Chr ''node_modules'' @ [Alt Eol (Chr CHR ''/'')])))"
  by (simp add: RegExp_def rx_parse_def)

lemma node_modules_test:
  "rx_test (seq_list (Bol # map Chr ''node_modules'' @ [Alt Eol (Chr CHR ''/'')])) ''node_modules''"
  by (simp add: rx_test_def)

lemma compiled_literal_matches:
  assumes "literal_line n l"
  shows "\<exists>t. RegExp eng (gitignore_pattern l) = Inr t \<and> t n"
proof (cases "n = ''node_modules''")
  case True
  with assms have "gitignore_pattern l = ''^node_modules($|/)''"
    by (auto simp: literal_line_def gitignore_pattern_def)
  then show ?thesis
    using True node_modules_pattern [of eng] node_modules_test by simp
next
  case False
  from assms have name: "literal_name n" by (simp add: literal_line_def)
  then have chars: "list_all literal_char n" and ne: "n \<noteq> []"
    by (simp_all add: literal_name_def)
  have "rx_parse (gitignore_pattern l)
          = Parsed (seq_list (prefix_regex # map Chr n @ [suffix_regex]))"
    unfolding gitignore_pattern_literal [OF assms False] by (rule parse_literal [OF chars])
  then have "RegExp eng (gitignore_pattern l)
          = Inr (rx_test (seq_list (prefix_regex # map Chr n @ [suffix_regex])))"
    by (simp add: RegExp_def)
  then show ?thesis
    using test_literal [OF ne] by simp
qed

lemma some_regex_match:
  assumes "\<forall>p \<in> set ps. \<exists>t. RegExp eng p = Inr t"
    and "\<exists>p \<in> set ps. \<exists>t. RegExp eng p = Inr t \<and> list_ex t subjects"
  shows "some_regex eng ps subjects = Inr True"
  using assms by (induction ps) (auto split: sum.splits)

lemma split_lines_single: "CHR 0x0A \<notin> set l \<Longrightarrow> split_lines l = [l]"
  by (induction l) auto

lemma split_lines_append:
  "CHR 0x0A \<notin> set l \<Longrightarrow> split_lines (l @ CHR 0x0A # r) = l # split_lines r"
  by (induction l) (auto split: list.splits)

lemma split_lines_join:
  "ls \<noteq> [] \<Longrightarrow> \<forall>l \<in> set ls. CHR 0x0A \<notin> set l \<Longrightarrow> split_lines (join [CHR 0x0A] ls) = ls"
proof (induction ls)
  case Nil
  then show ?case by simp
next
  case (Cons x xs)
  show ?case
  proof (cases xs)
    case Nil
    with Cons.prems show ?thesis by (simp add: split_lines_single)
  next
    case (Cons y ys)
    then have "join [CHR 0x0A] (x # xs) = x @ CHR 0x0A # join [CHR 0x0A] xs"
      by simp
    moreover have "split_lines (join [CHR 0x0A] xs) = xs"
      using Cons.IH Cons.prems Cons by simp
    ultimately show ?thesis
      using Cons.prems by (simp add: split_lines_append del: join.simps)
  qed
qed

lemma trim_unchanged:
  assumes "l \<noteq> []" "\<not> is_space (hd l)" "\<not> is_space (last l)"
  shows "trim l = l"
proof -
  have "dropWhile is_space l = l"
    using assms(1,2) by (cases l) simp_all
  moreover have "dropWhile is_space (rev l) = rev l"
    using assms(1,3) by (cases "rev l") (auto simp: hd_rev)
  ultimately show ?thesis by (simp add: trim_def)
qed

lemma literal_line_kept:
  assumes "literal_line n l"
  shows "trim l = l" "l \<noteq> []" "\<not> startsWith l ''#''" "CHR 0x0A \<notin> set l"
proof -
  from assms have name: "literal_name n" and l: "l = n \<or> l = n @ ''/''"
    by (simp_all add: literal_line_def)
  from name have n: "n \<noteq> []" "\<not> is_space (hd n)" "\<not> is_space (last n)" "hd n \<noteq> CHR ''#''"
    by (simp_all add: literal_name_def)
  show "l \<noteq> []" using l n by auto
  have hd: "hd l = hd n" using l n by auto
  have "last l = last n \<or> last l = CHR ''/''" using l by auto
  then have last: "\<not> is_space (last l)" using n by (auto simp: is_space_def)
  show "trim l = l"
    using \<open>l \<noteq> []\<close> hd n last by (intro trim_unchanged) simp_all
  show "\<not> startsWith l ''#''"
    using \<open>l \<noteq> []\<close> hd n by (cases l) (auto simp: startsWith_def)
  show "CHR 0x0A \<notin> set l"
    using l literal_name_facts(5) [OF name] by auto
qed

lemma parseGitignore_literal_lines:
  assumes "\<forall>l \<in> set ls. \<exists>n. literal_line n l"
  shows "parseGitignore (Some (join [CHR 0x0A] ls)) = map gitignore_pattern ls"
proof (cases "ls = []")
  case True
  then show ?thesis by (simp add: parseGitignore_def trim_def)
next
  case False
  have nl: "\<forall>l \<in> set ls. CHR 0x0A \<notin> set l"
    using assms literal_line_kept(4) by blast
  have "map trim ls = ls"
    using assms literal_line_kept(1) by (intro map_idI) blast
  moreover have "filter (\<lambda>line. line \<noteq> [] \<and> \<not> startsWith line ''#'') ls = ls"
    using assms literal_line_kept(2,3) by (intro filter_True) blast
  ultimately show ?thesis
    by (simp add: parseGitignore_def split_lines_join [OF False nl])
qed

text \<open>
  Where every line of the ignore file is a literal name in the sense above (alone or with
  a trailing separator), a candidate whose bare name is one of them is reported as
  ignored, whatever its path, the traversal root, and whether it is a directory: the
  compiled pattern of its line matches the bare name.
\<close>

lemma literal_names_ignored:
  assumes lines: "\<forall>l \<in> set ls. \<exists>n. literal_line n l"
    and line: "l \<in> set ls" "literal_line n l"
    and name: "basename itemPath = n"
  shows "shouldIgnore eng itemPath isDir (parseGitignore (Some (join [CHR 0x0A] ls))) rootDir = Inr True"
proof -
  let ?ps = "map gitignore_pattern ls"
  have ps: "parseGitignore (Some (join [CHR 0x0A] ls)) = ?ps"
    using lines by (rule parseGitignore_literal_lines)
  have compile: "\<forall>p \<in> set ?ps. \<exists>t. RegExp eng p = Inr t"
  proof
    fix p
    assume "p \<in> set ?ps"
    then obtain l' where l': "l' \<in> set ls" "p = gitignore_pattern l'"
      by auto
    with lines obtain n' where "literal_line n' l'"
      by blast
    from compiled_literal_matches [OF this, of eng] l'(2)
    show "\<exists>t. RegExp eng p = Inr t"
      by blast
  qed
  obtain t where t: "RegExp eng (gitignore_pattern l) = Inr t" "t n"
    using compiled_literal_matches [OF line(2), of eng] by blast
  have "\<exists>p \<in> set ?ps. \<exists>t. RegExp eng p = Inr t \<and> list_ex t [pathToCheck, n]" for pathToCheck
    using line(1) t by auto
  then have "some_regex eng ?ps [pathToCheck, n] = Inr True" for pathToCheck
    using some_regex_match [OF compile] by blast
  moreover have "?ps \<noteq> []"
    using line(1) by auto
  ultimately show ?thesis
    unfolding ps shouldIgnore_def Let_def name by simp
qed


text \<open>
  Claim C4 at literal names that contain a \<open>+\<close>.  The compiler escapes dots and
  slashes only, so the line \<open>a+b\<close> becomes a pattern in which \<open>+\<close> is a quantifier:
  a directory named \<open>a+b\<close> is not reported as ignored, at the root or below it, with or
  without the trailing separator, and is listed by the walk.  For the line \<open>c++\<close> the
  engine rejects the pattern and the test throws.  A name without such characters
  (\<open>dist\<close>) is reported as ignored at any depth, as \<open>literal_names_ignored\<close>
  shows in general.
\<close>

theorem literal_plus_name_not_ignored:
  "parseGitignore (Some (''a+b'' @ [CHR 0x0A] @ ''c++/'' @ [CHR 0x0A] @ ''dist/''))
     = [''(^|.*/|^/)a+b($|/.*)'', ''(^|.*/|^/)c++($|/.*)'', ''(^|.*/|^/)dist($|/.*)'']
   \<and> shouldIgnore eng ''/r/a+b'' True (parseGitignore (Some ''a+b'')) ''/r'' = Inr False
   \<and> shouldIgnore eng ''/r/x/a+b'' True (parseGitignore (Some ''a+b/'')) ''/r'' = Inr False
   \<and> shouldIgnore eng ''/r/c++'' True (parseGitignore (Some ''c++'')) ''/r''
       = Inl (SyntaxError ''Invalid regular expression: /(^|.*/|^/)c++($|/.*)/: Nothing to repeat'')
   \<and> shouldIgnore eng ''/r/x/dist'' True (parseGitignore (Some ''dist/'')) ''/r'' = Inr True
   \<and> tree_listing eng ''/r'' ''/r'' [] []
         [File ''.gitignore'' 4 (Inr ''a+b''), Dir ''a+b'' [], Dir ''dist'' []]
       = [box_item @ ''a+b/'' @ [CHR 0x0A]]"
  by code_simp

end
